theory Spec2Isabelle
  imports Main
begin

section \<open>Library functions the importer calls\<close>

text \<open>
  \<^verbatim>\<open>photo_importer.py\<close> is a script over the Python standard library. The functions of the
  library that decide its results are modelled here as the library computes them on a
  POSIX system. A Python string is a list of characters; the model covers the
  characters with code points below 256.
\<close>

subsection \<open>\<^verbatim>\<open>str.lower\<close>\<close>

text \<open>
  Below code point 256 the letters with a lower-case form are \<open>A\<close> to \<open>Z\<close> (65 to 90) and
  192 to 222 without the multiplication sign 215; the lower-case form is 32 further on.
\<close>

definition lower_char :: "char \<Rightarrow> char" where
  "lower_char c =
     (let n = (of_char c :: nat)
      in if (65 \<le> n \<and> n \<le> 90) \<or> (192 \<le> n \<and> n \<le> 222 \<and> n \<noteq> 215)
         then char_of (n + 32) else c)"

definition lower :: "string \<Rightarrow> string" where
  "lower s = map lower_char s"

subsection \<open>\<^verbatim>\<open>str.rfind\<close>, \<^verbatim>\<open>os.path.splitext\<close>, \<^verbatim>\<open>os.path.basename\<close>, \<^verbatim>\<open>os.path.join\<close>\<close>

text \<open>\<^verbatim>\<open>p.rfind(c)\<close>: the index of the last \<open>c\<close> in \<open>p\<close>, or \<open>-1\<close>.\<close>

fun rfind_scan :: "char \<Rightarrow> string \<Rightarrow> int \<Rightarrow> int \<Rightarrow> int" where
  "rfind_scan c [] i found = found"
| "rfind_scan c (x # xs) i found = rfind_scan c xs (i + 1) (if x = c then i else found)"

definition rfind :: "string \<Rightarrow> char \<Rightarrow> int" where
  "rfind p c = rfind_scan c p 0 (- 1)"

text \<open>
  \<^verbatim>\<open>genericpath._splitext(p, '/', None, '.')\<close>. The loop skips the dots a file name starts
  with, so that \<^verbatim>\<open>.bashrc\<close> has no extension:
  \<^verbatim>\<open>
    sepIndex = p.rfind(sep)
    dotIndex = p.rfind(extsep)
    if dotIndex > sepIndex:
        filenameIndex = sepIndex + 1
        while filenameIndex < dotIndex:
            if p[filenameIndex:filenameIndex+1] != extsep:
                return p[:dotIndex], p[dotIndex:]
            filenameIndex += 1
    return p, p[:0]
  \<close>
\<close>

function splitext_loop :: "string \<Rightarrow> nat \<Rightarrow> nat \<Rightarrow> (string \<times> string) option" where
  "splitext_loop p filenameIndex dotIndex =
     (if filenameIndex < dotIndex
      then (if p ! filenameIndex \<noteq> CHR ''.''
            then Some (take dotIndex p, drop dotIndex p)
            else splitext_loop p (filenameIndex + 1) dotIndex)
      else None)"
  by pat_completeness auto
termination
  by (relation "measure (\<lambda>(p, filenameIndex, dotIndex). dotIndex - filenameIndex)") auto

declare splitext_loop.simps [simp del]

definition splitext :: "string \<Rightarrow> string \<times> string" where
  "splitext p =
     (let sepIndex = rfind p CHR ''/'';
          dotIndex = rfind p CHR ''.''
      in if dotIndex > sepIndex
         then (case splitext_loop p (nat (sepIndex + 1)) (nat dotIndex) of
                 Some r \<Rightarrow> r
               | None \<Rightarrow> (p, []))
         else (p, []))"

text \<open>\<^verbatim>\<open>posixpath.basename(p)\<close>: \<^verbatim>\<open>i = p.rfind('/') + 1; return p[i:]\<close>.\<close>

definition basename :: "string \<Rightarrow> string" where
  "basename p = drop (nat (rfind p CHR ''/'' + 1)) p"

text \<open>
  \<^verbatim>\<open>posixpath.join(a, *p)\<close>: a component that starts with \<open>/\<close> replaces what was joined
  before it; otherwise it is appended, after a \<open>/\<close> unless the path is empty or ends
  with one.
\<close>

fun os_path_join :: "string \<Rightarrow> string list \<Rightarrow> string" where
  "os_path_join path [] = path"
| "os_path_join path (b # bs) =
     os_path_join
       (if b \<noteq> [] \<and> hd b = CHR ''/'' then b
        else if path = [] \<or> last path = CHR ''/'' then path @ b
        else path @ ''/'' @ b) bs"

declare os_path_join.simps [simp del]

subsection \<open>Decimal numbers: \<^verbatim>\<open>str(int)\<close>, as an f-string prints a number\<close>

definition digit_char :: "nat \<Rightarrow> char" where
  "digit_char n = ''0123456789'' ! n"

fun str_nat :: "nat \<Rightarrow> string" where
  "str_nat n = (if n < 10 then [digit_char n] else str_nat (n div 10) @ [digit_char (n mod 10)])"

declare str_nat.simps [simp del]

definition str_int :: "int \<Rightarrow> string" where
  "str_int i = (if i < 0 then ''-'' @ str_nat (nat (- i)) else str_nat (nat i))"

subsection \<open>\<^verbatim>\<open>datetime\<close>: \<^verbatim>\<open>strptime\<close> with the format \<^verbatim>\<open>'%Y:%m:%d %H:%M:%S'\<close>, and \<^verbatim>\<open>strftime\<close>\<close>

datatype exc = OSError | KeyError | ValueError | TypeError

record datetime =
  year :: nat
  month :: nat
  day :: nat
  hour :: nat
  minute :: nat
  second :: nat

text \<open>
  \<^verbatim>\<open>_strptime\<close> turns the format into the regular expression
  \<^verbatim>\<open>(?P<Y>\d\d\d\d):(?P<m>1[0-2]|0[1-9]|[1-9]):(?P<d>3[0-1]|[1-2]\d|0[1-9]|[1-9]| [1-9])\s+(?P<H>2[0-3]|[0-1]\d|\d):(?P<M>[0-5]\d|\d):(?P<S>6[0-1]|[0-5]\d|\d)\<close>
  and matches it at the start of the text. A matcher returns every way it can match a
  prefix, the regular expression's first choice first, each with the text that is
  left; the match that \<^verbatim>\<open>re.match\<close> reports is the first of the whole expression.
\<close>

definition among :: "string \<Rightarrow> char \<Rightarrow> bool" where
  "among cs c = (c \<in> set cs)"

definition re_digit :: "char \<Rightarrow> bool" where
  "re_digit = among ''0123456789''"

definition re_space :: "char \<Rightarrow> bool" where
  "re_space c = ((of_char c :: nat) \<in> set [9, 10, 11, 12, 13, 28, 29, 30, 31, 32, 133, 160])"

definition one :: "(char \<Rightarrow> bool) \<Rightarrow> string \<Rightarrow> (string \<times> string) list" where
  "one p s = (case s of a # r \<Rightarrow> if p a then [([a], r)] else [] | [] \<Rightarrow> [])"

definition two :: "(char \<Rightarrow> bool) \<Rightarrow> (char \<Rightarrow> bool) \<Rightarrow> string \<Rightarrow> (string \<times> string) list" where
  "two p q s = (case s of a # b # r \<Rightarrow> if p a \<and> q b then [([a, b], r)] else [] | _ \<Rightarrow> [])"

definition re_Y :: "string \<Rightarrow> (string \<times> string) list" where
  "re_Y s = (case s of a # b # c # d # r \<Rightarrow>
               if re_digit a \<and> re_digit b \<and> re_digit c \<and> re_digit d
               then [([a, b, c, d], r)] else []
             | _ \<Rightarrow> [])"

definition re_m :: "string \<Rightarrow> (string \<times> string) list" where
  "re_m s = two (among ''1'') (among ''012'') s @ two (among ''0'') (among ''123456789'') s
            @ one (among ''123456789'') s"

definition re_d :: "string \<Rightarrow> (string \<times> string) list" where
  "re_d s = two (among ''3'') (among ''01'') s @ two (among ''12'') re_digit s
            @ two (among ''0'') (among ''123456789'') s @ one (among ''123456789'') s
            @ two (among '' '') (among ''123456789'') s"

definition re_H :: "string \<Rightarrow> (string \<times> string) list" where
  "re_H s = two (among ''2'') (among ''0123'') s @ two (among ''01'') re_digit s @ one re_digit s"

definition re_M :: "string \<Rightarrow> (string \<times> string) list" where
  "re_M s = two (among ''012345'') re_digit s @ one re_digit s"

definition re_S :: "string \<Rightarrow> (string \<times> string) list" where
  "re_S s = two (among ''6'') (among ''01'') s @ two (among ''012345'') re_digit s @ one re_digit s"

definition re_lit :: "char \<Rightarrow> string \<Rightarrow> string list" where
  "re_lit c s = (case s of a # r \<Rightarrow> if a = c then [r] else [] | [] \<Rightarrow> [])"

text \<open>\<^verbatim>\<open>\s+\<close> is greedy: it takes all the white space first, then gives back one character at a time.\<close>

definition re_spaces :: "string \<Rightarrow> string list" where
  "re_spaces s = map (\<lambda>k. drop k s) (rev [1 ..< Suc (length (takeWhile re_space s))])"

definition format_regex_match :: "string \<Rightarrow> ((string \<times> string \<times> string \<times> string \<times> string \<times> string) \<times> string) list" where
  "format_regex_match s =
     [((Y, m, d, H, M, S), s11).
        (Y, s1) \<leftarrow> re_Y s, s2 \<leftarrow> re_lit CHR '':'' s1,
        (m, s3) \<leftarrow> re_m s2, s4 \<leftarrow> re_lit CHR '':'' s3,
        (d, s5) \<leftarrow> re_d s4, s6 \<leftarrow> re_spaces s5,
        (H, s7) \<leftarrow> re_H s6, s8 \<leftarrow> re_lit CHR '':'' s7,
        (M, s9) \<leftarrow> re_M s8, s10 \<leftarrow> re_lit CHR '':'' s9,
        (S, s11) \<leftarrow> re_S s10]"

text \<open>\<^verbatim>\<open>int(s)\<close> on a matched group: decimal digits, after the blank that \<^verbatim>\<open>%d\<close> may match.\<close>

definition digit_val :: "char \<Rightarrow> nat" where
  "digit_val c = of_char c - 48"

definition int_of_group :: "string \<Rightarrow> nat" where
  "int_of_group s = foldl (\<lambda>n c. 10 * n + digit_val c) 0 (filter re_digit s)"

definition is_leap :: "nat \<Rightarrow> bool" where
  "is_leap y = (y mod 4 = 0 \<and> (y mod 100 \<noteq> 0 \<or> y mod 400 = 0))"

definition days_in_month :: "nat \<Rightarrow> nat \<Rightarrow> nat" where
  "days_in_month y m =
     (if m = 2 \<and> is_leap y then 29 else [31, 28, 31, 30, 31, 30, 31, 31, 30, 31, 30, 31] ! (m - 1))"

text \<open>The checks of the \<^verbatim>\<open>datetime\<close> constructor (\<^verbatim>\<open>MINYEAR = 1\<close>, \<^verbatim>\<open>MAXYEAR = 9999\<close>).\<close>

definition valid_datetime :: "datetime \<Rightarrow> bool" where
  "valid_datetime t =
     (1 \<le> year t \<and> year t \<le> 9999 \<and> 1 \<le> month t \<and> month t \<le> 12
      \<and> 1 \<le> day t \<and> day t \<le> days_in_month (year t) (month t)
      \<and> hour t \<le> 23 \<and> minute t \<le> 59 \<and> second t \<le> 59)"

text \<open>
  \<^verbatim>\<open>datetime.strptime(s, '%Y:%m:%d %H:%M:%S')\<close>: \<^verbatim>\<open>ValueError\<close> when the expression does
  not match, when text remains after the match, and when the numbers are no date and
  time (year 0, the 30th of February, second 60).
\<close>

definition strptime :: "string \<Rightarrow> exc + datetime" where
  "strptime s =
     (case format_regex_match s of
        [] \<Rightarrow> Inl ValueError
      | ((Y, m, d, H, M, S), rest) # _ \<Rightarrow>
          if rest \<noteq> [] then Inl ValueError
          else let t = \<lparr>year = int_of_group Y, month = int_of_group m, day = int_of_group d,
                         hour = int_of_group H, minute = int_of_group M, second = int_of_group S\<rparr>
               in if valid_datetime t then Inr t else Inl ValueError)"

text \<open>
  \<^verbatim>\<open>strftime\<close> with the directives the importer uses, as CPython 3.11 prints them
  through the GNU C library. \<^verbatim>\<open>%m\<close>, \<^verbatim>\<open>%d\<close>, \<^verbatim>\<open>%H\<close>, \<^verbatim>\<open>%M\<close> and \<^verbatim>\<open>%S\<close> print their number in
  decimal, filled with zeros on the left to two digits. \<^verbatim>\<open>%Y\<close> prints the year in decimal
  with no filling: the year 999 is printed \<^verbatim>\<open>999\<close>, the year 1 is printed \<^verbatim>\<open>1\<close>.
\<close>

definition zfill :: "nat \<Rightarrow> string \<Rightarrow> string" where
  "zfill w s = replicate (w - length s) CHR ''0'' @ s"

definition directive :: "datetime \<Rightarrow> char \<Rightarrow> string" where
  "directive t c =
     (if c = CHR ''Y'' then str_nat (year t)
      else if c = CHR ''m'' then zfill 2 (str_nat (month t))
      else if c = CHR ''d'' then zfill 2 (str_nat (day t))
      else if c = CHR ''H'' then zfill 2 (str_nat (hour t))
      else if c = CHR ''M'' then zfill 2 (str_nat (minute t))
      else if c = CHR ''S'' then zfill 2 (str_nat (second t))
      else [CHR ''%'', c])"

fun strftime :: "datetime \<Rightarrow> string \<Rightarrow> string" where
  "strftime t (c # c' # r) =
     (if c = CHR ''%'' then directive t c' @ strftime t r else c # strftime t (c' # r))"
| "strftime t r = r"

section \<open>The importer\<close>

subsection \<open>Arguments, configuration, environment and state\<close>

text \<open>The command line (\<^verbatim>\<open>argparse\<close>, lines 39 to 46): three flags.\<close>

record args =
  dryrun :: bool
  debug :: bool
  get_serial :: bool

text \<open>
  The five paths of section \<^verbatim>\<open>PATH\<close> of \<^verbatim>\<open>importer.ini\<close> (lines 87 to 91). Each is a
  \<^verbatim>\<open>pathlib.Path\<close>; a field holds the string Python prints for it.
\<close>

record config =
  p_inbox :: string
  pre_process :: string
  raw_path :: string
  reject_path :: string
  video_path :: string

text \<open>Lines 61 and 62.\<close>

definition valid_extensions :: "string list" where
  "valid_extensions = [''.tif'', ''.cr2'', ''.jpg'', ''.jpeg'', ''.png'']"

definition video_extensions :: "string list" where
  "video_extensions = [''.mp4'', ''.mkv'']"

text \<open>
  What the run reads and does not write: the configuration file (\<open>None\<close> when
  \<^verbatim>\<open>importer.ini\<close> does not exist) and its printed path, the files \<^verbatim>\<open>os.walk\<close> finds
  under the inbox in the order it yields them, and what \<^verbatim>\<open>exifread\<close> finds in a file.
\<close>

datatype exif_read = CannotOpen | NoDateTimeOriginal | DateTimeOriginal string

record env =
  config_file :: string
  ini :: "config option"
  walk :: "string list"
  exif :: "string \<Rightarrow> exif_read"

text \<open>
  What the run does to the world, in order. Calls of the operating system are taken to
  succeed: a move that is refused, a full disk or a missing \<^verbatim>\<open>darktable-cli\<close> are outside
  the model, and so is a destination of a move that is an existing directory.
\<close>

datatype level = DEBUG | INFO | WARNING | ERROR | CRITICAL

datatype effect =
    MakeDirs string
  | Move string string
  | RunProcess "string list"
  | PickleDump int
  | Log level string

text \<open>
  The globals \<^verbatim>\<open>serial\<close>, \<^verbatim>\<open>reject_count\<close> and \<^verbatim>\<open>allpics\<close>, the paths that exist (what
  \<^verbatim>\<open>os.path.exists\<close> answers; a path is the string that names it), the number pickled in
  \<^verbatim>\<open>serial.pk\<close> (\<open>None\<close> when the file is absent or unreadable), and the effects so far.
\<close>

record state =
  serial :: int
  reject_count :: nat
  allpics :: "string list"
  existing :: "string set"
  serial_pk :: "int option"
  effects :: "effect list"

definition log :: "level \<Rightarrow> string \<Rightarrow> state \<Rightarrow> state" where
  "log lvl msg st = st\<lparr>effects := effects st @ [Log lvl msg]\<rparr>"

definition os_path_exists :: "state \<Rightarrow> string \<Rightarrow> bool" where
  "os_path_exists st p = (p \<in> existing st)"

text \<open>\<^verbatim>\<open>os.makedirs\<close> creates the directory and the directories above it.\<close>

definition parents :: "string \<Rightarrow> string list" where
  "parents p = [take i p. i \<leftarrow> [1 ..< length p], p ! i = CHR ''/'']"

definition os_makedirs :: "string \<Rightarrow> state \<Rightarrow> state" where
  "os_makedirs p st =
     st\<lparr>existing := existing st \<union> set (p # parents p), effects := effects st @ [MakeDirs p]\<rparr>"

definition shutil_move :: "string \<Rightarrow> string \<Rightarrow> state \<Rightarrow> state" where
  "shutil_move src dst st =
     st\<lparr>existing := insert dst (existing st - {src}), effects := effects st @ [Move src dst]\<rparr>"

definition subprocess_run :: "string list \<Rightarrow> state \<Rightarrow> state" where
  "subprocess_run argv st = st\<lparr>effects := effects st @ [RunProcess argv]\<rparr>"

definition pickle_dump :: "state \<Rightarrow> state" where
  "pickle_dump st =
     st\<lparr>serial_pk := Some (serial st), effects := effects st @ [PickleDump (serial st)]\<rparr>"

subsection \<open>\<^verbatim>\<open>get_date_taken\<close> (lines 93 to 97)\<close>

text \<open>
  \<^verbatim>\<open>open\<close> raises \<^verbatim>\<open>OSError\<close>, the lookup of \<^verbatim>\<open>'EXIF DateTimeOriginal'\<close> raises
  \<^verbatim>\<open>KeyError\<close> when the tag is missing; otherwise the tag is returned as a string.
\<close>

definition get_date_taken :: "env \<Rightarrow> string \<Rightarrow> exc + string" where
  "get_date_taken e path =
     (case exif e path of
        CannotOpen \<Rightarrow> Inl OSError
      | NoDateTimeOriginal \<Rightarrow> Inl KeyError
      | DateTimeOriginal s \<Rightarrow> Inr s)"

subsection \<open>\<^verbatim>\<open>reject\<close> and \<^verbatim>\<open>reject_video\<close> (lines 99 to 121)\<close>

definition reject :: "config \<Rightarrow> args \<Rightarrow> string \<Rightarrow> state \<Rightarrow> state" where
  "reject cfg a file st =
     (let st1 = st\<lparr>reject_count := reject_count st + 1\<rparr>;
          st2 = (if \<not> os_path_exists st1 (reject_path cfg)
                 then os_makedirs (reject_path cfg) st1 else st1);
          file_name = basename file
      in if dryrun a then log INFO ''ACTION: Move file to reject path'' st2
         else shutil_move file (reject_path cfg @ ''/'' @ file_name) st2)"

definition reject_video :: "config \<Rightarrow> args \<Rightarrow> string \<Rightarrow> state \<Rightarrow> state" where
  "reject_video cfg a video st =
     (let st1 = st\<lparr>reject_count := reject_count st + 1\<rparr>;
          st2 = (if \<not> os_path_exists st1 (video_path cfg)
                 then os_makedirs (video_path cfg) st1 else st1);
          file_name = basename video
      in if dryrun a then log INFO (''ACTION: Move '' @ video @ '' to '' @ video_path cfg) st2
         else shutil_move video (video_path cfg @ ''/'' @ file_name) st2)"

subsection \<open>\<^verbatim>\<open>process\<close> (lines 123 to 190)\<close>

text \<open>Lines 142 to 145: where a photo is stored.\<close>

definition storage_path :: "config \<Rightarrow> string \<Rightarrow> string" where
  "storage_path cfg extension = (if extension = ''.cr2'' then raw_path cfg else pre_process cfg)"

text \<open>
  Lines 147 to 157: the \<^verbatim>\<open>try\<close> block. The date is read and parsed; any exception of the
  two calls is caught, and the date is then \<^verbatim>\<open>None\<close>.
\<close>

definition read_date_taken :: "env \<Rightarrow> string \<Rightarrow> exc + datetime" where
  "read_date_taken e pic =
     (case get_date_taken e pic of Inl x \<Rightarrow> Inl x | Inr s \<Rightarrow> strptime s)"

definition new_filepath :: "config \<Rightarrow> string \<Rightarrow> datetime option \<Rightarrow> string" where
  "new_filepath cfg extension date_taken =
     (case date_taken of
        Some t \<Rightarrow> os_path_join (storage_path cfg extension) [strftime t ''%Y'', strftime t ''%m'']
      | None \<Rightarrow> os_path_join (storage_path cfg extension) [''nodate''])"

text \<open>Lines 158 to 165: the names of the photo and of its jpeg.\<close>

definition new_name :: "datetime option \<Rightarrow> int \<Rightarrow> string \<Rightarrow> string" where
  "new_name date_taken serial_no extension =
     (case date_taken of
        Some t \<Rightarrow> strftime t ''%Y%m%d_%H%M%S'' @ ''_'' @ str_int serial_no @ extension
      | None \<Rightarrow> str_int serial_no @ extension)"

definition new_jname :: "datetime option \<Rightarrow> int \<Rightarrow> string" where
  "new_jname date_taken serial_no =
     (case date_taken of
        Some t \<Rightarrow> strftime t ''%Y%m%d_%H%M%S'' @ ''_'' @ str_int serial_no @ ''.jpg''
      | None \<Rightarrow> str_int serial_no @ ''.jpg'')"

text \<open>
  \<^verbatim>\<open>datetime.strftime(date_taken, '%Y')\<close> of line 190 is the method called through its
  class: on \<^verbatim>\<open>None\<close> it raises \<^verbatim>\<open>TypeError\<close>.
\<close>

definition datetime_strftime :: "datetime option \<Rightarrow> string \<Rightarrow> exc + string" where
  "datetime_strftime date_taken fmt =
     (case date_taken of None \<Rightarrow> Inl TypeError | Some t \<Rightarrow> Inr (strftime t fmt))"

text \<open>
  Lines 147 to 157, the effect of the \<^verbatim>\<open>try\<close> block: the date, or \<^verbatim>\<open>None\<close> and a warning.
\<close>

definition try_date_taken :: "env \<Rightarrow> string \<Rightarrow> state \<Rightarrow> datetime option \<times> state" where
  "try_date_taken e pic st =
     (case read_date_taken e pic of
        Inr t \<Rightarrow> (Some t, st)
      | Inl x \<Rightarrow> (None, log WARNING (''Error raised on import of EXIF tag for '' @ pic
                    @ ''date in filename will be set to '' @ [CHR 0x27] @ ''nodate'' @ [CHR 0x27]) st))"

text \<open>Lines 168 to 177: the folder is made and the file moved, or both are only logged.\<close>

definition move_to_destination :: "args \<Rightarrow> string \<Rightarrow> string \<Rightarrow> string \<Rightarrow> state \<Rightarrow> state" where
  "move_to_destination a pic filepath name st =
     (let st1 = (if \<not> os_path_exists st filepath
                 then (if \<not> dryrun a then os_makedirs filepath st
                       else log INFO (''ACTION: create folder: '' @ filepath) st)
                 else st)
      in if \<not> dryrun a then shutil_move pic (os_path_join filepath [name]) st1
         else log INFO (''ACTION: move '' @ pic @ '' to '' @ os_path_join filepath [name]) st1)"

text \<open>
  Lines 180 to 190, for a \<^verbatim>\<open>.cr2\<close> file: the call of \<^verbatim>\<open>darktable-cli\<close>. Its arguments are
  evaluated before the call, and the year of the date is among them.
\<close>

definition make_jpeg :: "config \<Rightarrow> args \<Rightarrow> datetime option \<Rightarrow> string \<Rightarrow> string \<Rightarrow> string \<Rightarrow> state \<Rightarrow> (exc \<times> state) + state" where
  "make_jpeg cfg a date_taken filepath name jname st =
     (if dryrun a then Inr (log INFO ''ACTION: call dark-table and make jpeg'' st)
      else let st1 = (if \<not> os_path_exists st (raw_path cfg)
                      then os_makedirs (raw_path cfg) st else st)
           in (case datetime_strftime date_taken ''%Y'' of
                 Inl x \<Rightarrow> Inl (x, st1)
               | Inr y \<Rightarrow>
                   Inr (subprocess_run
                          [''darktable-cli'', os_path_join filepath [name],
                           os_path_join (pre_process cfg) [y, jname]] st1)))"

text \<open>
  Lines 142 to 190, for a file with a photo extension. An exception that is not caught
  ends the run: the result is then the exception, with the state it leaves behind.
\<close>

definition import_photo :: "config \<Rightarrow> args \<Rightarrow> env \<Rightarrow> string \<Rightarrow> string \<Rightarrow> state \<Rightarrow> (exc \<times> state) + state" where
  "import_photo cfg a e pic extension st =
     (let (date_taken, st1) = try_date_taken e pic st;
          filepath = new_filepath cfg extension date_taken;
          name = new_name date_taken (serial st1) extension;
          jname = new_jname date_taken (serial st1);
          st2 = move_to_destination a pic filepath name st1
      in if extension = ''.cr2''
         then make_jpeg cfg a date_taken filepath name jname st2
         else Inr st2)"

text \<open>Lines 130 to 141, then the rest of the loop body: one file of the inbox.\<close>

definition process_pic :: "config \<Rightarrow> args \<Rightarrow> env \<Rightarrow> string \<Rightarrow> state \<Rightarrow> (exc \<times> state) + state" where
  "process_pic cfg a e pic st0 =
     (let st = st0\<lparr>serial := serial st0 + 1\<rparr>;
          (original_name, ext) = splitext pic;
          extension = lower ext
      in if extension \<notin> set valid_extensions
         then (if extension \<in> set video_extensions
               then Inr (reject_video cfg a pic
                           (log INFO (pic @ '' appears to be a video: moving to '' @ video_path cfg) st))
               else Inr (reject cfg a pic
                           (log INFO (pic @ '' does not have a valid photo extension:rejecting'') st)))
         else import_photo cfg a e pic extension st)"

text \<open>The loop of line 129; an exception leaves it.\<close>

fun process_loop :: "config \<Rightarrow> args \<Rightarrow> env \<Rightarrow> string list \<Rightarrow> state \<Rightarrow> (exc \<times> state) + state" where
  "process_loop cfg a e [] st = Inr st"
| "process_loop cfg a e (pic # pics) st =
     (case process_pic cfg a e pic st of
        Inl failed \<Rightarrow> Inl failed
      | Inr st' \<Rightarrow> process_loop cfg a e pics st')"

text \<open>Lines 126 to 129: the files of the walk are appended to \<^verbatim>\<open>allpics\<close>, then each is processed.\<close>

definition process :: "config \<Rightarrow> args \<Rightarrow> env \<Rightarrow> state \<Rightarrow> (exc \<times> state) + state" where
  "process cfg a e st =
     (let st1 = st\<lparr>allpics := allpics st @ walk e\<rparr>
      in process_loop cfg a e (allpics st1) st1)"

subsection \<open>The script: start (lines 67 to 91) and main block (lines 193 to 203)\<close>

datatype exit_status = Exit nat | Traceback exc

text \<open>Lines 67 to 79: the globals, and the serial number read from \<^verbatim>\<open>serial.pk\<close>.\<close>

definition load_serial :: "string set \<Rightarrow> int option \<Rightarrow> state" where
  "load_serial fs pk =
     (let st = \<lparr>serial = (case pk of Some v \<Rightarrow> v | None \<Rightarrow> 0), reject_count = 0, allpics = [],
                 existing = fs, serial_pk = pk, effects = []\<rparr>;
          st1 = (case pk of Some v \<Rightarrow> log DEBUG ''pickle file found'' st
                 | None \<Rightarrow> log DEBUG ''pickle file not found'' st)
      in log INFO (''serial number starting at: '' @ str_int (serial st1)) st1)"

text \<open>Lines 193 to 203.\<close>

definition main :: "config \<Rightarrow> args \<Rightarrow> env \<Rightarrow> state \<Rightarrow> exit_status \<times> state" where
  "main cfg a e st =
     (let st1 = log INFO ''Welcome to Meili image_importer'' st
      in if get_serial a
         then (Exit 0, log INFO (''The current serial number is: '' @ str_int (serial st1)) st1)
         else (case process cfg a e st1 of
                 Inl (x, st2) \<Rightarrow> (Traceback x, st2)
               | Inr st2 \<Rightarrow>
                   (Exit 0, if \<not> dryrun a then pickle_dump st2
                            else log INFO ''ACTION: Dumping pickle'' st2)))"

text \<open>
  The whole script, from the files that exist and the pickled number: the serial number
  is loaded, a missing configuration file ends the script with status 1 (lines 82 to
  84), otherwise the main block runs.
\<close>

definition script :: "args \<Rightarrow> env \<Rightarrow> string set \<Rightarrow> int option \<Rightarrow> exit_status \<times> state" where
  "script a e fs pk =
     (let st = load_serial fs pk
      in case ini e of
           None \<Rightarrow> (Exit 1, log CRITICAL (''Missing '' @ config_file e @ ''. Please add '' @ config_file e) st)
         | Some cfg \<Rightarrow> main cfg a e st)"

text \<open>The state a step or a run leaves behind, whether it ended or raised.\<close>

definition outcome_state :: "(exc \<times> state) + state \<Rightarrow> state" where
  "outcome_state r = (case r of Inl (x, st) \<Rightarrow> st | Inr st \<Rightarrow> st)"

subsection \<open>The vocabulary of the specification\<close>

text \<open>
  The specification names four classes of files and says how an extension is
  classified: compared without regard to case, \<^verbatim>\<open>.cr2\<close> is a raw photo, the other
  photo extensions \<^verbatim>\<open>.tif\<close>, \<^verbatim>\<open>.jpg\<close>, \<^verbatim>\<open>.jpeg\<close>, \<^verbatim>\<open>.png\<close> are processed photos, \<^verbatim>\<open>.mp4\<close> and
  \<^verbatim>\<open>.mkv\<close> are videos, and anything else is unsupported. The script has no such function;
  this one is written from the specification, to be compared with what \<open>process_pic\<close>
  does.
\<close>

datatype classification = RawPhoto | ProcessedPhoto | Video | Unsupported

definition classify_spec :: "string \<Rightarrow> classification" where
  "classify_spec ext =
     (let x = lower ext
      in if x = ''.cr2'' then RawPhoto
         else if x \<in> set [''.tif'', ''.jpg'', ''.jpeg'', ''.png''] then ProcessedPhoto
         else if x \<in> set [''.mp4'', ''.mkv''] then Video
         else Unsupported)"

text \<open>\<open>s\<close> is the number \<open>n\<close> written with exactly \<open>w\<close> decimal digits.\<close>

definition is_decimal :: "nat \<Rightarrow> nat \<Rightarrow> string \<Rightarrow> bool" where
  "is_decimal w n s = (length s = w \<and> list_all re_digit s \<and> int_of_group s = n)"

text \<open>
  What a dry run may do at most: write to the log, and make the reject or the video
  directory.
\<close>

definition dry_run_effect :: "config \<Rightarrow> effect \<Rightarrow> bool" where
  "dry_run_effect cfg ef =
     (case ef of
        Log l m \<Rightarrow> True
      | MakeDirs p \<Rightarrow> p = reject_path cfg \<or> p = video_path cfg
      | _ \<Rightarrow> False)"

subsection \<open>A sample run\<close>

text \<open>
  An inbox of five files: a jpeg and a raw photo with a date, a text file, a video, and
  a raw photo without the date tag. The serial number pickled by the run before is 6,
  and none of the target folders exists yet.
\<close>

definition sample_config :: config where
  "sample_config = \<lparr>p_inbox = ''/in'', pre_process = ''/pre'', raw_path = ''/raw'',
     reject_path = ''/rej'', video_path = ''/vid''\<rparr>"

definition sample_exif :: "string \<Rightarrow> exif_read" where
  "sample_exif p =
     (if p = ''/in/a.JPG'' then DateTimeOriginal ''2023:04:05 11:22:33''
      else if p = ''/in/b.cr2'' then DateTimeOriginal ''2020:12:31 23:59:59''
      else NoDateTimeOriginal)"

definition sample_env :: env where
  "sample_env = \<lparr>config_file = ''/opt/meili/importer.ini'', ini = Some sample_config,
     walk = [''/in/a.JPG'', ''/in/b.cr2'', ''/in/c.txt'', ''/in/d.MKV'', ''/in/e.CR2''],
     exif = sample_exif\<rparr>"

definition no_flags :: args where
  "no_flags = \<lparr>dryrun = False, debug = False, get_serial = False\<rparr>"

definition sample_state :: state where
  "sample_state = \<lparr>serial = 6, reject_count = 0, allpics = [], existing = {},
     serial_pk = Some 6, effects = []\<rparr>"

section \<open>Properties\<close>

subsection \<open>The serial number through the steps of a run\<close>

lemma log_serial [simp]: "serial (log l m st) = serial st"
  by (simp add: log_def)

lemma os_makedirs_serial [simp]: "serial (os_makedirs p st) = serial st"
  by (simp add: os_makedirs_def)

lemma shutil_move_serial [simp]: "serial (shutil_move src dst st) = serial st"
  by (simp add: shutil_move_def)

lemma subprocess_run_serial [simp]: "serial (subprocess_run argv st) = serial st"
  by (simp add: subprocess_run_def)

lemma reject_serial [simp]: "serial (reject cfg a file st) = serial st"
  by (simp add: reject_def Let_def)

lemma reject_video_serial [simp]: "serial (reject_video cfg a video st) = serial st"
  by (simp add: reject_video_def Let_def)

lemma try_date_taken_serial [simp]: "serial (snd (try_date_taken e pic st)) = serial st"
  by (simp add: try_date_taken_def split: sum.splits)

lemma move_to_destination_serial [simp]:
  "serial (move_to_destination a pic filepath name st) = serial st"
  by (simp add: move_to_destination_def Let_def)

lemma make_jpeg_serial [simp]:
  "serial (outcome_state (make_jpeg cfg a date_taken filepath name jname st)) = serial st"
  by (simp add: make_jpeg_def outcome_state_def Let_def split: sum.splits)

lemma import_photo_serial:
  "serial (outcome_state (import_photo cfg a e pic extension st)) = serial st"
proof (cases "try_date_taken e pic st")
  case (Pair d st1)
  then have "serial st1 = serial st"
    using try_date_taken_serial [of e pic st] by simp
  with Pair show ?thesis
    by (simp add: import_photo_def Let_def outcome_state_def [of "Inr _"])
qed

text \<open>Whatever a file is, and whether its step ends or raises, the step adds one.\<close>

lemma process_pic_serial:
  "serial (outcome_state (process_pic cfg a e pic st)) = serial st + 1"
  by (cases "splitext pic")
     (simp add: process_pic_def Let_def import_photo_serial outcome_state_def [of "Inr _"])

lemma process_loop_serial_done:
  "process_loop cfg a e pics st = Inr st' \<Longrightarrow> serial st' = serial st + int (length pics)"
proof (induction pics arbitrary: st)
  case Nil
  then show ?case by simp
next
  case (Cons pic pics)
  from Cons.prems obtain st1 where step: "process_pic cfg a e pic st = Inr st1"
    and rest: "process_loop cfg a e pics st1 = Inr st'"
    by (auto split: sum.splits)
  from step have "serial st1 = serial st + 1"
    using process_pic_serial [of cfg a e pic st] by (simp add: outcome_state_def)
  with Cons.IH [OF rest] show ?case by simp
qed

lemma process_loop_serial_raised:
  "process_loop cfg a e pics st = Inl (x, st') \<Longrightarrow>
   \<exists>before pic after. pics = before @ pic # after
      \<and> serial st' = serial st + int (length before) + 1"
proof (induction pics arbitrary: st)
  case Nil
  then show ?case by simp
next
  case (Cons pic pics)
  show ?case
  proof (cases "process_pic cfg a e pic st")
    case (Inl failed)
    with Cons.prems have "failed = (x, st')" by simp
    with Inl have "serial st' = serial st + 1"
      using process_pic_serial [of cfg a e pic st] by (simp add: outcome_state_def)
    then have "pic # pics = [] @ pic # pics
        \<and> serial st' = serial st + int (length ([] :: string list)) + 1"
      by simp
    then show ?thesis by blast
  next
    case (Inr st1)
    with Cons.prems have rest: "process_loop cfg a e pics st1 = Inl (x, st')" by simp
    from Inr have s1: "serial st1 = serial st + 1"
      using process_pic_serial [of cfg a e pic st] by (simp add: outcome_state_def)
    from Cons.IH [OF rest] obtain before p after where
      "pics = before @ p # after" "serial st' = serial st1 + int (length before) + 1" by blast
    with s1 have "pic # pics = (pic # before) @ p # after
        \<and> serial st' = serial st + int (length (pic # before)) + 1" by simp
    then show ?thesis by blast
  qed
qed

text \<open>
  A run of \<open>process\<close> that comes to its end over an inbox of \<open>N\<close> files leaves the serial
  number at its first value plus \<open>N\<close>, whatever the files are; a run that an exception
  ends at some file leaves it at the first value plus the number of files taken up,
  that file included.
\<close>

lemma serial_after_process:
  assumes "allpics st = []"
  shows "(process cfg a e st = Inr st' \<longrightarrow> serial st' = serial st + int (length (walk e)))
       \<and> (process cfg a e st = Inl (x, st') \<longrightarrow>
            (\<exists>before pic after. walk e = before @ pic # after
               \<and> serial st' = serial st + int (length before) + 1))"
  using assms process_loop_serial_done [of cfg a e "walk e" "st\<lparr>allpics := walk e\<rparr>" st']
    process_loop_serial_raised [of cfg a e "walk e" "st\<lparr>allpics := walk e\<rparr>" x st']
  by (simp add: process_def Let_def)

text \<open>
  C3. The claim: after a run over an inbox of \<open>N\<close> files, whatever they are, the serial
  number is its first value plus \<open>N\<close>. Every file the loop takes up is counted once,
  before it is looked at (\<open>process_pic_serial\<close>), and a run that comes to its end has
  counted all \<open>N\<close> (\<open>serial_after_process\<close>). But a run that is not a dry run is ended
  by the \<^verbatim>\<open>TypeError\<close> of line 190 at a raw photo without a date: over the inbox
  \<^verbatim>\<open>/in/c.txt\<close>, \<^verbatim>\<open>/in/e.CR2\<close>, \<^verbatim>\<open>/in/d.MKV\<close>, starting at 6, the run ends with the serial
  number at 8 and not at 9; the video is never taken up.
\<close>

theorem serial_short_of_file_count:
  "length (walk (sample_env\<lparr>walk := [''/in/c.txt'', ''/in/e.CR2'', ''/in/d.MKV'']\<rparr>)) = 3
   \<and> serial sample_state = 6
   \<and> isl (process sample_config no_flags
            (sample_env\<lparr>walk := [''/in/c.txt'', ''/in/e.CR2'', ''/in/d.MKV'']\<rparr>) sample_state)
   \<and> fst (projl (process sample_config no_flags
            (sample_env\<lparr>walk := [''/in/c.txt'', ''/in/e.CR2'', ''/in/d.MKV'']\<rparr>) sample_state))
       = TypeError
   \<and> serial (outcome_state (process sample_config no_flags
            (sample_env\<lparr>walk := [''/in/c.txt'', ''/in/e.CR2'', ''/in/d.MKV'']\<rparr>) sample_state))
       = 8
   \<and> reject_count (outcome_state (process sample_config no_flags
            (sample_env\<lparr>walk := [''/in/c.txt'', ''/in/e.CR2'', ''/in/d.MKV'']\<rparr>) sample_state))
       = 1"
  by code_simp

subsection \<open>Numbers in decimal, dates\<close>

lemma digit_table:
  "\<forall>k \<in> set [0 ..< 10]. re_digit (digit_char k) \<and> digit_val (digit_char k) = k"
  by code_simp

lemma digit_char_digit: "k < 10 \<Longrightarrow> re_digit (digit_char k)"
  using digit_table by simp

lemma digit_val_digit_char: "k < 10 \<Longrightarrow> digit_val (digit_char k) = k"
  using digit_table by simp

lemma str_nat_digits: "list_all re_digit (str_nat n)"
proof (induction n rule: str_nat.induct)
  case (1 n)
  show ?case
  proof (cases "n < 10")
    case True
    then show ?thesis by (simp add: str_nat.simps [of n] digit_char_digit)
  next
    case False
    with 1 show ?thesis by (simp add: str_nat.simps [of n] digit_char_digit)
  qed
qed

lemma int_of_group_snoc:
  "re_digit c \<Longrightarrow> int_of_group (s @ [c]) = 10 * int_of_group s + digit_val c"
  by (simp add: int_of_group_def)

lemma int_of_group_str_nat: "int_of_group (str_nat n) = n"
proof (induction n rule: str_nat.induct)
  case (1 n)
  show ?case
  proof (cases "n < 10")
    case True
    then show ?thesis
      by (simp add: str_nat.simps [of n] int_of_group_def digit_char_digit digit_val_digit_char)
  next
    case False
    then have "int_of_group (str_nat (n div 10)) = n div 10" using 1 by simp
    with False show ?thesis
      by (simp add: str_nat.simps [of n] int_of_group_snoc digit_char_digit digit_val_digit_char)
  qed
qed

lemma length_str_nat: "0 < k \<Longrightarrow> n < 10 ^ k \<Longrightarrow> length (str_nat n) \<le> k"
proof (induction n arbitrary: k rule: str_nat.induct)
  case (1 n)
  show ?case
  proof (cases "n < 10")
    case True
    with 1 show ?thesis by (simp add: str_nat.simps [of n])
  next
    case False
    with "1.prems" obtain j where k: "k = Suc j" by (cases k) auto
    with False "1.prems" have "0 < j" by (cases j) auto
    moreover from k "1.prems" have "n div 10 < 10 ^ j" by (simp add: less_mult_imp_div_less)
    ultimately have "length (str_nat (n div 10)) \<le> j" using "1.IH" False by simp
    with k False show ?thesis by (simp add: str_nat.simps [of n])
  qed
qed

lemma length_str_nat_above: "10 ^ k \<le> n \<Longrightarrow> k < length (str_nat n)"
proof (induction n arbitrary: k rule: str_nat.induct)
  case (1 n)
  show ?case
  proof (cases "n < 10")
    case True
    with "1.prems" have "(10::nat) ^ k < 10 ^ 1" by simp
    then have "k < 1" using power_less_imp_less_exp [of 10 k 1] by simp
    with True show ?thesis by (simp add: str_nat.simps [of n])
  next
    case False
    show ?thesis
    proof (cases k)
      case 0
      with False show ?thesis by (simp add: str_nat.simps [of n])
    next
      case (Suc j)
      with "1.prems" have "10 ^ j \<le> n div 10"
        by (simp add: less_eq_div_iff_mult_less_eq mult.commute)
      with "1.IH" False have "j < length (str_nat (n div 10))" by simp
      with Suc False show ?thesis by (simp add: str_nat.simps [of n])
    qed
  qed
qed

text \<open>A number from 1000 to 9999 is printed in four digits.\<close>

lemma str_nat_four_digits:
  "1000 \<le> n \<Longrightarrow> n \<le> 9999 \<Longrightarrow> is_decimal 4 n (str_nat n)"
  using length_str_nat [of 4 n] length_str_nat_above [of 3 n] str_nat_digits [of n]
  by (simp add: is_decimal_def int_of_group_str_nat)

lemma zero_digit: "re_digit CHR ''0''" "digit_val CHR ''0'' = 0"
  by code_simp+

lemma int_of_group_zeros: "int_of_group (replicate k CHR ''0'' @ s) = int_of_group s"
  by (induction k) (simp_all add: int_of_group_def zero_digit)

lemma zfill_decimal: "0 < w \<Longrightarrow> n < 10 ^ w \<Longrightarrow> is_decimal w n (zfill w (str_nat n))"
  using length_str_nat [of w n] str_nat_digits [of n]
  by (auto simp add: is_decimal_def zfill_def int_of_group_zeros int_of_group_str_nat
      list_all_iff zero_digit)

lemma strptime_valid: "strptime s = Inr t \<Longrightarrow> valid_datetime t"
  by (auto simp add: strptime_def Let_def split: list.splits if_splits)

lemma read_date_taken_valid: "read_date_taken e pic = Inr t \<Longrightarrow> valid_datetime t"
  by (auto simp add: read_date_taken_def strptime_valid split: sum.splits)

lemma days_in_month_le: "1 \<le> m \<Longrightarrow> m \<le> 12 \<Longrightarrow> days_in_month y m \<le> 31"
proof -
  assume "1 \<le> m" "m \<le> 12"
  then have "[31, 28, 31, 30, 31, 30, 31, 31, 30, 31, 30, 31] ! (m - 1)
      \<in> set [31, 28, 31, 30, 31, 30, 31, 31, 30, 31, 30, 31 :: nat]"
    by (intro nth_mem) simp
  then have "[31, 28, 31, 30, 31, 30, 31, 31, 30, 31, 30, 31] ! (m - 1) \<le> (31 :: nat)"
    by auto
  then show ?thesis by (simp add: days_in_month_def)
qed

lemma strftime_Y: "strftime t ''%Y'' = str_nat (year t)"
  by (simp add: directive_def)

lemma strftime_m: "strftime t ''%m'' = zfill 2 (str_nat (month t))"
  by (simp add: directive_def)

lemma strftime_stamp:
  "strftime t ''%Y%m%d_%H%M%S'' =
     str_nat (year t) @ zfill 2 (str_nat (month t)) @ zfill 2 (str_nat (day t)) @ ''_''
     @ zfill 2 (str_nat (hour t)) @ zfill 2 (str_nat (minute t)) @ zfill 2 (str_nat (second t))"
  by (simp add: directive_def)

subsection \<open>What the import of a photo does\<close>

lemma log_effects [simp]: "effects (log l m st) = effects st @ [Log l m]"
  by (simp add: log_def)

lemma os_makedirs_effects [simp]: "effects (os_makedirs p st) = effects st @ [MakeDirs p]"
  by (simp add: os_makedirs_def)

lemma shutil_move_effects [simp]: "effects (shutil_move src dst st) = effects st @ [Move src dst]"
  by (simp add: shutil_move_def)

lemma subprocess_run_effects [simp]:
  "effects (subprocess_run argv st) = effects st @ [RunProcess argv]"
  by (simp add: subprocess_run_def)

lemma try_date_taken_fst:
  "fst (try_date_taken e pic st) = (case read_date_taken e pic of Inr t \<Rightarrow> Some t | Inl x \<Rightarrow> None)"
  by (simp add: try_date_taken_def split: sum.splits)

lemma move_to_destination_moves:
  "\<not> dryrun a \<Longrightarrow>
   Move pic (os_path_join filepath [name]) \<in> set (effects (move_to_destination a pic filepath name st))"
  by (simp add: move_to_destination_def Let_def)

lemma move_to_destination_logs:
  "dryrun a \<Longrightarrow>
   Log INFO (''ACTION: move '' @ pic @ '' to '' @ os_path_join filepath [name])
     \<in> set (effects (move_to_destination a pic filepath name st))"
  by (simp add: move_to_destination_def Let_def)

lemma make_jpeg_keeps:
  "set (effects st) \<subseteq> set (effects (outcome_state (make_jpeg cfg a date_taken filepath name jname st)))"
proof (cases "datetime_strftime date_taken ''%Y''")
  case (Inl x)
  then show ?thesis
    by (simp add: make_jpeg_def outcome_state_def Let_def) blast
next
  case (Inr y)
  then show ?thesis
    by (simp add: make_jpeg_def outcome_state_def Let_def) blast
qed

text \<open>The steps of \<open>import_photo\<close>, with the date that was read.\<close>

lemma import_photo_steps:
  assumes "d = fst (try_date_taken e pic st)"
  shows "import_photo cfg a e pic extension st =
     (let st2 = move_to_destination a pic (new_filepath cfg extension d)
                  (new_name d (serial st) extension) (snd (try_date_taken e pic st))
      in if extension = ''.cr2''
         then make_jpeg cfg a d (new_filepath cfg extension d) (new_name d (serial st) extension)
                (new_jname d (serial st)) st2
         else Inr st2)"
proof (cases "try_date_taken e pic st")
  case (Pair d' st1)
  with assms have d: "d' = d" by simp
  from Pair have s: "serial st1 = serial st"
    using try_date_taken_serial [of e pic st] by simp
  from Pair d s show ?thesis
    by (simp add: import_photo_def Let_def)
qed

lemma import_photo_keeps_move:
  assumes "d = fst (try_date_taken e pic st)"
    and "x \<in> set (effects (move_to_destination a pic (new_filepath cfg extension d)
                  (new_name d (serial st) extension) (snd (try_date_taken e pic st))))"
  shows "x \<in> set (effects (outcome_state (import_photo cfg a e pic extension st)))"
proof (cases "extension = ''.cr2''")
  case True
  then have "import_photo cfg a e pic extension st =
      make_jpeg cfg a d (new_filepath cfg extension d) (new_name d (serial st) extension)
        (new_jname d (serial st))
        (move_to_destination a pic (new_filepath cfg extension d)
           (new_name d (serial st) extension) (snd (try_date_taken e pic st)))"
    using import_photo_steps [OF assms(1)] by (simp add: Let_def)
  then show ?thesis using subsetD [OF make_jpeg_keeps assms(2)] by simp
next
  case False
  then have "import_photo cfg a e pic extension st =
      Inr (move_to_destination a pic (new_filepath cfg extension d)
           (new_name d (serial st) extension) (snd (try_date_taken e pic st)))"
    using import_photo_steps [OF assms(1)] by (simp add: Let_def)
  then show ?thesis using assms(2) by (simp add: outcome_state_def)
qed

lemma import_photo_moves:
  assumes "\<not> dryrun a" and "d = fst (try_date_taken e pic st)"
  shows "Move pic (os_path_join (new_filepath cfg extension d) [new_name d (serial st) extension])
           \<in> set (effects (outcome_state (import_photo cfg a e pic extension st)))"
  using import_photo_keeps_move [OF assms(2) move_to_destination_moves [OF assms(1)]] .

lemma import_photo_logs:
  assumes "dryrun a" and "d = fst (try_date_taken e pic st)"
  shows "Log INFO (''ACTION: move '' @ pic @ '' to ''
            @ os_path_join (new_filepath cfg extension d) [new_name d (serial st) extension])
           \<in> set (effects (outcome_state (import_photo cfg a e pic extension st)))"
  using import_photo_keeps_move [OF assms(2) move_to_destination_logs [OF assms(1)]] .

subsection \<open>Destination and name of a photo\<close>

text \<open>
  C5, as stated: the destination directory of a photo with a capture time has the year
  in four digits. \<^verbatim>\<open>strptime\<close> accepts the years 0001 to 9999, and \<^verbatim>\<open>%Y\<close> prints a year
  below 1000 without leading zeros: a jpeg taken at 0999:01:02 03:04:05 is moved, with
  serial 7, to \<^verbatim>\<open>/pre/999/01/9990102_030405_7.jpg\<close>.
\<close>

theorem year_below_1000_unpadded:
  "read_date_taken (sample_env\<lparr>exif := (\<lambda>p. DateTimeOriginal ''0999:01:02 03:04:05'')\<rparr>)
       ''/in/a.JPG''
     = Inr \<lparr>year = 999, month = 1, day = 2, hour = 3, minute = 4, second = 5\<rparr>
   \<and> new_filepath sample_config ''.jpg''
         (Some \<lparr>year = 999, month = 1, day = 2, hour = 3, minute = 4, second = 5\<rparr>)
       = ''/pre/999/01''
   \<and> new_name (Some \<lparr>year = 999, month = 1, day = 2, hour = 3, minute = 4, second = 5\<rparr>)
         7 ''.jpg''
       = ''9990102_030405_7.jpg''
   \<and> \<not> is_decimal 4 999
         (strftime \<lparr>year = 999, month = 1, day = 2, hour = 3, minute = 4, second = 5\<rparr> ''%Y'')
   \<and> Move ''/in/a.JPG'' ''/pre/999/01/9990102_030405_7.jpg''
       \<in> set (effects (outcome_state
             (import_photo sample_config no_flags
                (sample_env\<lparr>exif := (\<lambda>p. DateTimeOriginal ''0999:01:02 03:04:05'')\<rparr>)
                ''/in/a.JPG'' ''.jpg'' (sample_state\<lparr>serial := 7\<rparr>))))"
  by code_simp

text \<open>
  C5, amended. For a photo whose capture time \<open>t\<close> was read, the destination directory
  is the storage root of its class joined with the year of \<open>t\<close> in decimal and the
  month of \<open>t\<close> in two digits, and the file name is the year, the month, the day, an
  underscore, the hour, the minute and the second, an underscore, the serial number
  and the extension; month, day, hour, minute and second are printed in two digits,
  and the year in four digits when it is 1000 or later. That is where the file is
  moved, or under dry-run what the log says. With the time 2023:04:05 11:22:33, serial
  7 and extension \<^verbatim>\<open>.jpg\<close>: directory \<^verbatim>\<open>/pre/2023/04\<close>, name \<^verbatim>\<open>20230405_112233_7.jpg\<close>.
\<close>

theorem dated_photo_plan:
  assumes "read_date_taken e pic = Inr t"
  shows "new_filepath cfg extension (Some t)
           = os_path_join (storage_path cfg extension)
               [str_nat (year t), zfill 2 (str_nat (month t))]
       \<and> new_name (Some t) s extension
           = str_nat (year t) @ zfill 2 (str_nat (month t)) @ zfill 2 (str_nat (day t))
             @ ''_'' @ zfill 2 (str_nat (hour t)) @ zfill 2 (str_nat (minute t))
             @ zfill 2 (str_nat (second t)) @ ''_'' @ str_int s @ extension
       \<and> list_all re_digit (str_nat (year t)) \<and> int_of_group (str_nat (year t)) = year t
       \<and> (1000 \<le> year t \<longrightarrow> is_decimal 4 (year t) (str_nat (year t)))
       \<and> is_decimal 2 (month t) (zfill 2 (str_nat (month t)))
       \<and> is_decimal 2 (day t) (zfill 2 (str_nat (day t)))
       \<and> is_decimal 2 (hour t) (zfill 2 (str_nat (hour t)))
       \<and> is_decimal 2 (minute t) (zfill 2 (str_nat (minute t)))
       \<and> is_decimal 2 (second t) (zfill 2 (str_nat (second t)))
       \<and> (\<not> dryrun a \<longrightarrow>
            Move pic (os_path_join (new_filepath cfg extension (Some t))
                        [new_name (Some t) (serial st) extension])
              \<in> set (effects (outcome_state (import_photo cfg a e pic extension st))))
       \<and> (dryrun a \<longrightarrow>
            Log INFO (''ACTION: move '' @ pic @ '' to ''
                        @ os_path_join (new_filepath cfg extension (Some t))
                            [new_name (Some t) (serial st) extension])
              \<in> set (effects (outcome_state (import_photo cfg a e pic extension st))))"
proof -
  from assms have v: "valid_datetime t" by (rule read_date_taken_valid)
  then have m: "1 \<le> month t" "month t \<le> 12" by (simp_all add: valid_datetime_def)
  from v have "day t \<le> days_in_month (year t) (month t)" by (simp add: valid_datetime_def)
  with days_in_month_le [OF m, of "year t"] have d: "day t \<le> 31" by simp
  from v have y: "year t \<le> 9999" by (simp add: valid_datetime_def)
  have Yd: "list_all re_digit (str_nat (year t))" by (rule str_nat_digits)
  have Yv: "int_of_group (str_nat (year t)) = year t" by (rule int_of_group_str_nat)
  have Y: "1000 \<le> year t \<longrightarrow> is_decimal 4 (year t) (str_nat (year t))"
    using y str_nat_four_digits [of "year t"] by blast
  have mo: "is_decimal 2 (month t) (zfill 2 (str_nat (month t)))"
    using m by (intro zfill_decimal) simp_all
  have da: "is_decimal 2 (day t) (zfill 2 (str_nat (day t)))"
    using d by (intro zfill_decimal) simp_all
  have H: "is_decimal 2 (hour t) (zfill 2 (str_nat (hour t)))"
    using v by (intro zfill_decimal) (simp_all add: valid_datetime_def)
  have M: "is_decimal 2 (minute t) (zfill 2 (str_nat (minute t)))"
    using v by (intro zfill_decimal) (simp_all add: valid_datetime_def)
  have S: "is_decimal 2 (second t) (zfill 2 (str_nat (second t)))"
    using v by (intro zfill_decimal) (simp_all add: valid_datetime_def)
  have fp: "new_filepath cfg extension (Some t)
           = os_path_join (storage_path cfg extension)
               [str_nat (year t), zfill 2 (str_nat (month t))]"
    by (simp add: new_filepath_def directive_def)
  have nn: "new_name (Some t) s extension
           = str_nat (year t) @ zfill 2 (str_nat (month t)) @ zfill 2 (str_nat (day t))
             @ ''_'' @ zfill 2 (str_nat (hour t)) @ zfill 2 (str_nat (minute t))
             @ zfill 2 (str_nat (second t)) @ ''_'' @ str_int s @ extension"
    by (simp add: new_name_def directive_def)
  from assms have date: "Some t = fst (try_date_taken e pic st)"
    by (simp add: try_date_taken_fst)
  have mv: "\<not> dryrun a \<longrightarrow>
            Move pic (os_path_join (new_filepath cfg extension (Some t))
                        [new_name (Some t) (serial st) extension])
              \<in> set (effects (outcome_state (import_photo cfg a e pic extension st)))"
    using import_photo_moves [OF _ date] by blast
  have lg: "dryrun a \<longrightarrow>
            Log INFO (''ACTION: move '' @ pic @ '' to ''
                        @ os_path_join (new_filepath cfg extension (Some t))
                            [new_name (Some t) (serial st) extension])
              \<in> set (effects (outcome_state (import_photo cfg a e pic extension st)))"
    using import_photo_logs [OF _ date] by blast
  from fp nn Yd Yv Y mo da H M S mv lg show ?thesis by blast
qed

theorem dated_photo_plan_witness:
  "read_date_taken sample_env ''/in/a.JPG''
     = Inr \<lparr>year = 2023, month = 4, day = 5, hour = 11, minute = 22, second = 33\<rparr>
   \<and> new_filepath sample_config ''.jpg''
         (Some \<lparr>year = 2023, month = 4, day = 5, hour = 11, minute = 22, second = 33\<rparr>)
       = ''/pre/2023/04''
   \<and> new_name (Some \<lparr>year = 2023, month = 4, day = 5, hour = 11, minute = 22, second = 33\<rparr>)
         7 ''.jpg''
       = ''20230405_112233_7.jpg''
   \<and> is_decimal 4 2023 ''2023''
   \<and> Move ''/in/a.JPG'' ''/pre/2023/04/20230405_112233_7.jpg''
       \<in> set (effects (outcome_state
             (import_photo sample_config no_flags sample_env ''/in/a.JPG'' ''.jpg''
                (sample_state\<lparr>serial := 7\<rparr>))))"
proof -
  let ?t = "\<lparr>year = 2023, month = 4, day = 5, hour = 11, minute = 22, second = 33\<rparr>"
  let ?st = "sample_state\<lparr>serial := 7\<rparr>"
  have h: "read_date_taken sample_env ''/in/a.JPG'' = Inr ?t" by code_simp
  have yr: "str_nat (year ?t) = ''2023''" "(1000 :: nat) \<le> year ?t" "year ?t = 2023"
    by code_simp+
  have dir: "os_path_join (storage_path sample_config ''.jpg'')
               [str_nat (year ?t), zfill 2 (str_nat (month ?t))] = ''/pre/2023/04''"
    by code_simp
  have name: "str_nat (year ?t) @ zfill 2 (str_nat (month ?t))
             @ zfill 2 (str_nat (day ?t)) @ ''_'' @ zfill 2 (str_nat (hour ?t))
             @ zfill 2 (str_nat (minute ?t)) @ zfill 2 (str_nat (second ?t)) @ ''_''
             @ str_int 7 @ ''.jpg'' = ''20230405_112233_7.jpg''"
    by code_simp
  have dest: "os_path_join ''/pre/2023/04'' [''20230405_112233_7.jpg'']
      = ''/pre/2023/04/20230405_112233_7.jpg''"
    by code_simp
  have flags: "\<not> dryrun no_flags" "serial ?st = 7" by (simp_all add: no_flags_def)
  note plan = dated_photo_plan [OF h, of sample_config "''.jpg''" 7 no_flags ?st]
  from plan have "new_filepath sample_config ''.jpg'' (Some ?t)
      = os_path_join (storage_path sample_config ''.jpg'')
               [str_nat (year ?t), zfill 2 (str_nat (month ?t))]"
    by blast
  with dir have fp: "new_filepath sample_config ''.jpg'' (Some ?t) = ''/pre/2023/04''"
    by simp
  from plan have "new_name (Some ?t) 7 ''.jpg''
      = str_nat (year ?t) @ zfill 2 (str_nat (month ?t))
             @ zfill 2 (str_nat (day ?t)) @ ''_'' @ zfill 2 (str_nat (hour ?t))
             @ zfill 2 (str_nat (minute ?t)) @ zfill 2 (str_nat (second ?t)) @ ''_''
             @ str_int 7 @ ''.jpg''"
    by blast
  with name have nn: "new_name (Some ?t) 7 ''.jpg'' = ''20230405_112233_7.jpg''"
    by simp
  from plan have "1000 \<le> year ?t \<longrightarrow> is_decimal 4 (year ?t) (str_nat (year ?t))"
    by blast
  with yr have four: "is_decimal 4 2023 ''2023''" by (simp only:)
  from plan have "\<not> dryrun no_flags \<longrightarrow>
      Move ''/in/a.JPG'' (os_path_join (new_filepath sample_config ''.jpg'' (Some ?t))
                        [new_name (Some ?t) (serial ?st) ''.jpg''])
       \<in> set (effects (outcome_state
             (import_photo sample_config no_flags sample_env ''/in/a.JPG'' ''.jpg'' ?st)))"
    by blast
  with flags have "Move ''/in/a.JPG'' (os_path_join (new_filepath sample_config ''.jpg'' (Some ?t))
                        [new_name (Some ?t) 7 ''.jpg''])
       \<in> set (effects (outcome_state
             (import_photo sample_config no_flags sample_env ''/in/a.JPG'' ''.jpg'' ?st)))"
    by simp
  with fp nn dest have "Move ''/in/a.JPG'' ''/pre/2023/04/20230405_112233_7.jpg''
       \<in> set (effects (outcome_state
             (import_photo sample_config no_flags sample_env ''/in/a.JPG'' ''.jpg'' ?st)))"
    by simp
  with h fp nn four show ?thesis by blast
qed

text \<open>
  C6. For a photo whose capture time could not be read, the destination directory is
  the storage root of its class joined with \<^verbatim>\<open>nodate\<close>, and the file name is the serial
  number followed by the extension. With serial 9 and extension \<^verbatim>\<open>.cr2\<close>: directory
  \<^verbatim>\<open>/raw/nodate\<close>, name \<^verbatim>\<open>9.cr2\<close>.
\<close>

theorem undated_photo_plan:
  assumes "read_date_taken e pic = Inl x"
  shows "new_filepath cfg extension None = os_path_join (storage_path cfg extension) [''nodate'']
       \<and> new_name None s extension = str_int s @ extension
       \<and> (\<not> dryrun a \<longrightarrow>
            Move pic (os_path_join (os_path_join (storage_path cfg extension) [''nodate''])
                        [str_int (serial st) @ extension])
              \<in> set (effects (outcome_state (import_photo cfg a e pic extension st))))
       \<and> (dryrun a \<longrightarrow>
            Log INFO (''ACTION: move '' @ pic @ '' to ''
                        @ os_path_join (os_path_join (storage_path cfg extension) [''nodate''])
                            [str_int (serial st) @ extension])
              \<in> set (effects (outcome_state (import_photo cfg a e pic extension st))))"
proof -
  have fp: "new_filepath cfg extension None
      = os_path_join (storage_path cfg extension) [''nodate'']"
    by (simp add: new_filepath_def)
  have nn: "\<And>n. new_name None n extension = str_int n @ extension"
    by (simp add: new_name_def)
  from assms have date: "None = fst (try_date_taken e pic st)"
    by (simp add: try_date_taken_fst)
  have mv: "\<not> dryrun a \<longrightarrow>
            Move pic (os_path_join (new_filepath cfg extension None)
                        [new_name None (serial st) extension])
              \<in> set (effects (outcome_state (import_photo cfg a e pic extension st)))"
    using import_photo_moves [OF _ date] by blast
  have lg: "dryrun a \<longrightarrow>
            Log INFO (''ACTION: move '' @ pic @ '' to ''
                        @ os_path_join (new_filepath cfg extension None)
                            [new_name None (serial st) extension])
              \<in> set (effects (outcome_state (import_photo cfg a e pic extension st)))"
    using import_photo_logs [OF _ date] by blast
  from fp nn mv lg show ?thesis by simp
qed

theorem undated_photo_plan_witness:
  "read_date_taken sample_env ''/in/e.CR2'' = Inl KeyError
   \<and> new_filepath sample_config ''.cr2'' None = ''/raw/nodate''
   \<and> new_name None 9 ''.cr2'' = ''9.cr2''
   \<and> Move ''/in/e.CR2'' ''/raw/nodate/9.cr2''
       \<in> set (effects (outcome_state
             (import_photo sample_config no_flags sample_env ''/in/e.CR2'' ''.cr2''
                (sample_state\<lparr>serial := 9\<rparr>))))"
proof -
  let ?st = "sample_state\<lparr>serial := 9\<rparr>"
  have h: "read_date_taken sample_env ''/in/e.CR2'' = Inl KeyError" by code_simp
  have dir: "os_path_join (storage_path sample_config ''.cr2'') [''nodate''] = ''/raw/nodate''"
    by code_simp
  have name: "str_int 9 @ ''.cr2'' = ''9.cr2''" by code_simp
  have dest: "os_path_join ''/raw/nodate'' [''9.cr2''] = ''/raw/nodate/9.cr2''" by code_simp
  have flags: "\<not> dryrun no_flags" "serial ?st = 9" by (simp_all add: no_flags_def)
  note plan = undated_photo_plan [OF h, of sample_config "''.cr2''" 9 no_flags ?st]
  from plan dir have fp: "new_filepath sample_config ''.cr2'' None = ''/raw/nodate''" by simp
  from plan name have nn: "new_name None 9 ''.cr2'' = ''9.cr2''" by simp
  from plan have "\<not> dryrun no_flags \<longrightarrow> Move ''/in/e.CR2''
         (os_path_join (os_path_join (storage_path sample_config ''.cr2'') [''nodate''])
            [str_int (serial ?st) @ ''.cr2''])
       \<in> set (effects (outcome_state
             (import_photo sample_config no_flags sample_env ''/in/e.CR2'' ''.cr2'' ?st)))"
    by blast
  with flags have "Move ''/in/e.CR2''
         (os_path_join (os_path_join (storage_path sample_config ''.cr2'') [''nodate''])
            [str_int 9 @ ''.cr2''])
       \<in> set (effects (outcome_state
             (import_photo sample_config no_flags sample_env ''/in/e.CR2'' ''.cr2'' ?st)))"
    by simp
  with dir name dest have "Move ''/in/e.CR2'' ''/raw/nodate/9.cr2''
       \<in> set (effects (outcome_state
             (import_photo sample_config no_flags sample_env ''/in/e.CR2'' ''.cr2'' ?st)))"
    by simp
  with h fp nn show ?thesis by blast
qed

subsection \<open>The extension of a new name\<close>

lemma rfind_scan_append:
  "rfind_scan c (xs @ ys) i found = rfind_scan c ys (i + int (length xs)) (rfind_scan c xs i found)"
  by (induction xs arbitrary: i found) (simp_all add: add.assoc)

lemma rfind_scan_absent: "c \<notin> set p \<Longrightarrow> rfind_scan c p i found = found"
  by (induction p arbitrary: i found) auto

lemma rfind_absent: "c \<notin> set p \<Longrightarrow> rfind p c = - 1"
  by (simp add: rfind_def rfind_scan_absent)

lemma rfind_last: "c \<notin> set rest \<Longrightarrow> rfind (stem @ c # rest) c = int (length stem)"
  by (simp add: rfind_def rfind_scan_append rfind_scan_absent)

lemma splitext_stem_ext:
  assumes "stem \<noteq> []" and "hd stem \<noteq> CHR ''.''"
    and "CHR ''/'' \<notin> set stem" and "CHR ''/'' \<notin> set rest" and "CHR ''.'' \<notin> set rest"
  shows "splitext (stem @ CHR ''.'' # rest) = (stem, CHR ''.'' # rest)"
proof -
  let ?p = "stem @ CHR ''.'' # rest"
  from assms have sep: "rfind ?p CHR ''/'' = - 1" by (intro rfind_absent) simp
  from assms have dot: "rfind ?p CHR ''.'' = int (length stem)" by (intro rfind_last)
  from assms have "?p ! 0 \<noteq> CHR ''.''" by (cases stem) simp_all
  with assms have "splitext_loop ?p 0 (length stem) = Some (take (length stem) ?p, drop (length stem) ?p)"
    by (simp add: splitext_loop.simps [of ?p 0])
  then have "splitext_loop ?p 0 (length stem) = Some (stem, CHR ''.'' # rest)" by simp
  with sep dot show ?thesis by (simp add: splitext_def)
qed

lemma str_nat_nonempty: "str_nat n \<noteq> []"
  by (simp add: str_nat.simps [of n])

lemma digit_plain: "re_digit c \<Longrightarrow> c \<noteq> CHR ''.'' \<and> c \<noteq> CHR ''/''"
  by (auto simp add: re_digit_def among_def)

lemma str_nat_plain: "c \<in> set (str_nat n) \<Longrightarrow> c \<noteq> CHR ''.'' \<and> c \<noteq> CHR ''/''"
  using str_nat_digits [of n] digit_plain [of c] by (simp add: list_all_iff)

lemma str_int_nonempty: "str_int i \<noteq> []"
  by (simp add: str_int_def str_nat_nonempty)

lemma str_int_plain: "c \<in> set (str_int i) \<Longrightarrow> c \<noteq> CHR ''.'' \<and> c \<noteq> CHR ''/''"
  using str_nat_plain [of c "nat i"] str_nat_plain [of c "nat (- i)"]
  by (cases "i < 0") (auto simp add: str_int_def)

lemma zfill_plain: "c \<in> set (zfill w (str_nat n)) \<Longrightarrow> c \<noteq> CHR ''.'' \<and> c \<noteq> CHR ''/''"
  using str_nat_plain [of c n] by (auto simp add: zfill_def)

lemma stamp_plain:
  "c \<in> set (strftime t ''%Y%m%d_%H%M%S'') \<Longrightarrow> c \<noteq> CHR ''.'' \<and> c \<noteq> CHR ''/''"
  using str_nat_plain [of c "year t"] zfill_plain [of c 2 "month t"] zfill_plain [of c 2 "day t"]
    zfill_plain [of c 2 "hour t"] zfill_plain [of c 2 "minute t"] zfill_plain [of c 2 "second t"]
  by (auto simp add: directive_def)

text \<open>What comes before the extension in a new name has no dot and no slash.\<close>

lemma new_name_shape:
  "\<exists>stem. new_name d s extension = stem @ extension \<and> stem \<noteq> []
      \<and> CHR ''.'' \<notin> set stem \<and> CHR ''/'' \<notin> set stem"
proof (cases d)
  case None
  then have "new_name d s extension = str_int s @ extension" by (simp add: new_name_def)
  moreover have "CHR ''.'' \<notin> set (str_int s)" "CHR ''/'' \<notin> set (str_int s)"
    using str_int_plain [of _ s] by blast+
  ultimately show ?thesis using str_int_nonempty [of s] by blast
next
  case (Some t)
  let ?stem = "strftime t ''%Y%m%d_%H%M%S'' @ ''_'' @ str_int s"
  have a: "CHR ''.'' \<notin> set (strftime t ''%Y%m%d_%H%M%S'')"
      "CHR ''/'' \<notin> set (strftime t ''%Y%m%d_%H%M%S'')"
    using stamp_plain [of _ t] by blast+
  have b: "CHR ''.'' \<notin> set (str_int s)" "CHR ''/'' \<notin> set (str_int s)"
    using str_int_plain [of _ s] by blast+
  from a b have "CHR ''.'' \<notin> set ?stem" "CHR ''/'' \<notin> set ?stem" by simp_all
  moreover from Some have "new_name d s extension = ?stem @ extension"
    by (simp add: new_name_def)
  moreover have "?stem \<noteq> []" by simp
  ultimately show ?thesis by blast
qed

text \<open>The extension of a new name with a photo extension is that extension.\<close>

lemma splitext_new_name:
  assumes "extension \<in> set valid_extensions"
  shows "snd (splitext (new_name d s extension)) = extension"
proof -
  from new_name_shape [of d s extension] obtain stem where
    n: "new_name d s extension = stem @ extension" and ne: "stem \<noteq> []"
    and dot: "CHR ''.'' \<notin> set stem" and sl: "CHR ''/'' \<notin> set stem" by blast
  from ne have "hd stem \<in> set stem" by simp
  with dot have h: "hd stem \<noteq> CHR ''.''" by metis
  from assms obtain rest where e: "extension = CHR ''.'' # rest"
    and r: "CHR ''/'' \<notin> set rest" "CHR ''.'' \<notin> set rest"
    by (auto simp add: valid_extensions_def)
  from splitext_stem_ext [OF ne h sl r] n e show ?thesis by simp
qed

text \<open>
  C9. The extension is put in lower case once, before the file is classified, and the
  same string ends the new name: for an imported photo, the extension of the new name
  is the lower-case form of the extension the file had. A file ending in \<^verbatim>\<open>.JPG\<close> is
  renamed with \<^verbatim>\<open>.jpg\<close>.
\<close>

theorem extension_is_lowercased:
  assumes "extension = lower (snd (splitext pic))" and "extension \<in> set valid_extensions"
    and "d = (case read_date_taken e pic of Inr t \<Rightarrow> Some t | Inl x \<Rightarrow> None)"
  shows "process_pic cfg a e pic st
           = import_photo cfg a e pic extension (st\<lparr>serial := serial st + 1\<rparr>)
       \<and> snd (splitext (new_name d (serial st + 1) extension)) = lower (snd (splitext pic))
       \<and> (\<not> dryrun a \<longrightarrow>
            Move pic (os_path_join (new_filepath cfg extension d)
                        [new_name d (serial st + 1) extension])
              \<in> set (effects (outcome_state (process_pic cfg a e pic st))))
       \<and> (dryrun a \<longrightarrow>
            Log INFO (''ACTION: move '' @ pic @ '' to ''
                        @ os_path_join (new_filepath cfg extension d)
                            [new_name d (serial st + 1) extension])
              \<in> set (effects (outcome_state (process_pic cfg a e pic st))))"
proof -
  let ?st = "st\<lparr>serial := serial st + 1\<rparr>"
  have step: "process_pic cfg a e pic st = import_photo cfg a e pic extension ?st"
    using assms(1,2) by (cases "splitext pic") (simp add: process_pic_def Let_def)
  have ext: "snd (splitext (new_name d (serial st + 1) extension)) = lower (snd (splitext pic))"
    using splitext_new_name [OF assms(2)] assms(1) by simp
  from assms(3) have date: "d = fst (try_date_taken e pic ?st)"
    by (simp add: try_date_taken_fst)
  have s: "serial ?st = serial st + 1" by simp
  have mv: "\<not> dryrun a \<longrightarrow>
            Move pic (os_path_join (new_filepath cfg extension d)
                        [new_name d (serial st + 1) extension])
              \<in> set (effects (outcome_state (process_pic cfg a e pic st)))"
    using import_photo_moves [OF _ date, of a cfg extension] unfolding step s by blast
  have lg: "dryrun a \<longrightarrow>
            Log INFO (''ACTION: move '' @ pic @ '' to ''
                        @ os_path_join (new_filepath cfg extension d)
                            [new_name d (serial st + 1) extension])
              \<in> set (effects (outcome_state (process_pic cfg a e pic st)))"
    using import_photo_logs [OF _ date, of a cfg extension] unfolding step s by blast
  from step ext mv lg show ?thesis by blast
qed

theorem extension_is_lowercased_witness:
  "''.jpg'' = lower (snd (splitext ''/in/a.JPG''))
   \<and> ''.jpg'' \<in> set valid_extensions
   \<and> snd (splitext ''20230405_112233_7.jpg'') = ''.jpg''
   \<and> Move ''/in/a.JPG'' ''/pre/2023/04/20230405_112233_7.jpg''
       \<in> set (effects (outcome_state
                (process_pic sample_config no_flags sample_env ''/in/a.JPG'' sample_state)))"
proof -
  let ?d = "Some \<lparr>year = 2023, month = 4, day = 5, hour = 11, minute = 22, second = 33\<rparr>"
  have h1: "''.jpg'' = lower (snd (splitext ''/in/a.JPG''))" by code_simp
  have h2: "''.jpg'' \<in> set valid_extensions" by (simp add: valid_extensions_def)
  have h3: "?d = (case read_date_taken sample_env ''/in/a.JPG'' of
                    Inr t \<Rightarrow> Some t | Inl x \<Rightarrow> None)"
    by code_simp
  have name: "new_name ?d (serial sample_state + 1) ''.jpg'' = ''20230405_112233_7.jpg''"
    by code_simp
  have dest: "os_path_join (new_filepath sample_config ''.jpg'' ?d) [''20230405_112233_7.jpg'']
      = ''/pre/2023/04/20230405_112233_7.jpg''"
    by code_simp
  have flags: "\<not> dryrun no_flags" by (simp add: no_flags_def)
  note low = extension_is_lowercased [OF h1 h2 h3, of sample_config no_flags sample_state]
  from low h1 have "snd (splitext (new_name ?d (serial sample_state + 1) ''.jpg'')) = ''.jpg''"
    by simp
  with name have ext: "snd (splitext ''20230405_112233_7.jpg'') = ''.jpg''" by simp
  from low flags have "Move ''/in/a.JPG''
        (os_path_join (new_filepath sample_config ''.jpg'' ?d)
           [new_name ?d (serial sample_state + 1) ''.jpg''])
       \<in> set (effects (outcome_state
                (process_pic sample_config no_flags sample_env ''/in/a.JPG'' sample_state)))"
    by blast
  with name dest have "Move ''/in/a.JPG'' ''/pre/2023/04/20230405_112233_7.jpg''
       \<in> set (effects (outcome_state
                (process_pic sample_config no_flags sample_env ''/in/a.JPG'' sample_state)))"
    by simp
  with h1 h2 ext show ?thesis by blast
qed

subsection \<open>Files without an extension\<close>

lemma reject_count_log [simp]: "reject_count (log l m st) = reject_count st"
  by (simp add: log_def)

lemma reject_reject_count: "reject_count (reject cfg a file st) = reject_count st + 1"
  by (simp add: reject_def Let_def os_makedirs_def shutil_move_def)

lemma reject_last_effect:
  "last (effects (reject cfg a file st)) =
     (if dryrun a then Log INFO ''ACTION: Move file to reject path''
      else Move file (reject_path cfg @ ''/'' @ basename file))"
  by (simp add: reject_def Let_def)

lemma reject_dry_moves:
  "dryrun a \<Longrightarrow> Move src dst \<in> set (effects (reject cfg a file st))
     \<Longrightarrow> Move src dst \<in> set (effects st)"
  by (simp add: reject_def Let_def split: if_splits)

text \<open>
  C10, as stated: a file whose name has no extension is moved to the reject directory.
  Under dry-run it is not: \<open>reject\<close> only logs the move, and the file stays where it
  was.
\<close>

theorem no_extension_dry_run_not_moved:
  "snd (splitext ''/in/README'') = []
   \<and> effects (outcome_state
        (process_pic sample_config (no_flags\<lparr>dryrun := True\<rparr>) sample_env ''/in/README''
           (sample_state\<lparr>existing := {''/in/README''}\<rparr>)))
       = [Log INFO ''/in/README does not have a valid photo extension:rejecting'',
          MakeDirs ''/rej'',
          Log INFO ''ACTION: Move file to reject path'']
   \<and> ''/in/README'' \<in> existing (outcome_state
        (process_pic sample_config (no_flags\<lparr>dryrun := True\<rparr>) sample_env ''/in/README''
           (sample_state\<lparr>existing := {''/in/README''}\<rparr>)))"
  by code_simp

text \<open>
  C10, amended. A file whose name has no extension is classified as unsupported and
  handed to \<open>reject\<close>, which counts it. Without dry-run the file is then moved to the
  reject directory under its base name; under dry-run the move is only logged and no
  file is moved. The loop goes on with the next file.
\<close>

theorem no_extension_rejected:
  assumes "snd (splitext pic) = []"
    and "st' = outcome_state (process_pic cfg a e pic st)"
  shows "classify_spec (snd (splitext pic)) = Unsupported
       \<and> process_pic cfg a e pic st
           = Inr (reject cfg a pic
                    (log INFO (pic @ '' does not have a valid photo extension:rejecting'')
                       (st\<lparr>serial := serial st + 1\<rparr>)))
       \<and> reject_count st' = reject_count st + 1
       \<and> (\<not> dryrun a \<longrightarrow>
            last (effects st') = Move pic (reject_path cfg @ ''/'' @ basename pic))
       \<and> (dryrun a \<longrightarrow>
            last (effects st') = Log INFO ''ACTION: Move file to reject path''
            \<and> (\<forall>src dst. Move src dst \<in> set (effects st') \<longrightarrow> Move src dst \<in> set (effects st)))
       \<and> process_loop cfg a e (pic # pics) st = process_loop cfg a e pics st'"
proof -
  let ?st1 = "log INFO (pic @ '' does not have a valid photo extension:rejecting'')
                (st\<lparr>serial := serial st + 1\<rparr>)"
  have cl: "classify_spec (snd (splitext pic)) = Unsupported"
    using assms(1) by (simp add: classify_spec_def lower_def)
  have step: "process_pic cfg a e pic st = Inr (reject cfg a pic ?st1)"
    using assms(1)
    by (cases "splitext pic")
       (simp add: process_pic_def Let_def lower_def valid_extensions_def video_extensions_def)
  with assms(2) have st': "st' = reject cfg a pic ?st1" by (simp add: outcome_state_def)
  have rc: "reject_count st' = reject_count st + 1"
    unfolding st' by (simp add: reject_reject_count)
  have wet: "\<not> dryrun a \<longrightarrow>
      last (effects st') = Move pic (reject_path cfg @ ''/'' @ basename pic)"
    unfolding st' by (simp add: reject_last_effect)
  have dry1: "dryrun a \<longrightarrow> last (effects st') = Log INFO ''ACTION: Move file to reject path''"
    unfolding st' by (simp add: reject_last_effect)
  have dry2: "dryrun a \<longrightarrow>
      (\<forall>src dst. Move src dst \<in> set (effects st') \<longrightarrow> Move src dst \<in> set (effects st))"
    unfolding st' using reject_dry_moves [of a _ _ cfg pic ?st1] by auto
  have loop: "process_loop cfg a e (pic # pics) st = process_loop cfg a e pics st'"
    unfolding st' by (simp add: step)
  from cl step rc wet dry1 dry2 loop show ?thesis by blast
qed

theorem no_extension_rejected_witness:
  "snd (splitext ''/in/README'') = []
   \<and> reject_count (outcome_state
        (process_pic sample_config no_flags sample_env ''/in/README'' sample_state)) = 1
   \<and> last (effects (outcome_state
        (process_pic sample_config no_flags sample_env ''/in/README'' sample_state)))
       = Move ''/in/README'' ''/rej/README''
   \<and> process_loop sample_config no_flags sample_env [''/in/README'', ''/in/c.txt''] sample_state
       = process_loop sample_config no_flags sample_env [''/in/c.txt'']
           (outcome_state
              (process_pic sample_config no_flags sample_env ''/in/README'' sample_state))"
proof -
  let ?st' = "outcome_state
        (process_pic sample_config no_flags sample_env ''/in/README'' sample_state)"
  have h: "snd (splitext ''/in/README'') = []" by code_simp
  have dst: "reject_path sample_config @ ''/'' @ basename ''/in/README'' = ''/rej/README''"
    by code_simp
  have flags: "\<not> dryrun no_flags" "reject_count sample_state = 0"
    by (simp_all add: no_flags_def sample_state_def)
  note rej = no_extension_rejected [OF h refl, of sample_config no_flags sample_env sample_state
    "[''/in/c.txt'']"]
  from rej have "reject_count ?st' = reject_count sample_state + 1" by blast
  with flags have rc: "reject_count ?st' = 1" by simp
  from rej flags have "last (effects ?st')
      = Move ''/in/README'' (reject_path sample_config @ ''/'' @ basename ''/in/README'')"
    by blast
  with dst have mv: "last (effects ?st') = Move ''/in/README'' ''/rej/README''" by simp
  from rej have loop: "process_loop sample_config no_flags sample_env
        [''/in/README'', ''/in/c.txt''] sample_state
      = process_loop sample_config no_flags sample_env [''/in/c.txt''] ?st'"
    by blast
  from h rc mv loop show ?thesis by blast
qed

subsection \<open>The flag \<^verbatim>\<open>--get-serial\<close>\<close>

text \<open>
  C8. With \<^verbatim>\<open>--get-serial\<close> the script reports the serial number it loaded from the
  pickle file and exits: the number is logged when it is loaded (line 79) and, when
  the configuration file is there, once more by the main block (line 196), which is
  then the last thing the script does. Nothing but log lines is produced: no file is
  processed, the inbox is not walked, no path is made or moved, and the pickled number
  is what it was.
\<close>

theorem get_serial_reports_and_exits:
  assumes "get_serial a" and "script a e fs pk = (x, st)"
    and "loaded = (case pk of Some v \<Rightarrow> v | None \<Rightarrow> 0)"
  shows "Log INFO (''serial number starting at: '' @ str_int loaded) \<in> set (effects st)
       \<and> (ini e \<noteq> None \<longrightarrow>
            x = Exit 0
            \<and> last (effects st) = Log INFO (''The current serial number is: '' @ str_int loaded))
       \<and> (ini e = None \<longrightarrow> x = Exit 1)
       \<and> serial_pk st = pk \<and> serial st = loaded \<and> existing st = fs
       \<and> allpics st = [] \<and> reject_count st = 0
       \<and> list_all (\<lambda>ef. case ef of Log l m \<Rightarrow> True | _ \<Rightarrow> False) (effects st)"
proof (cases "ini e")
  case None
  with assms show ?thesis
    by (cases pk) (auto simp add: script_def load_serial_def log_def Let_def)
next
  case (Some cfg)
  with assms show ?thesis
    by (cases pk) (auto simp add: script_def main_def load_serial_def log_def Let_def)
qed

theorem get_serial_reports_and_exits_witness:
  "get_serial (no_flags\<lparr>get_serial := True\<rparr>)
   \<and> fst (script (no_flags\<lparr>get_serial := True\<rparr>) sample_env {''/in/a.JPG''} (Some 6)) = Exit 0
   \<and> last (effects (snd (script (no_flags\<lparr>get_serial := True\<rparr>) sample_env {''/in/a.JPG''} (Some 6))))
       = Log INFO ''The current serial number is: 6''
   \<and> serial_pk (snd (script (no_flags\<lparr>get_serial := True\<rparr>) sample_env {''/in/a.JPG''} (Some 6)))
       = Some 6
   \<and> existing (snd (script (no_flags\<lparr>get_serial := True\<rparr>) sample_env {''/in/a.JPG''} (Some 6)))
       = {''/in/a.JPG''}"
proof -
  let ?a = "no_flags\<lparr>get_serial := True\<rparr>"
  let ?r = "script ?a sample_env {''/in/a.JPG''} (Some 6)"
  have h: "get_serial ?a" by simp
  have r: "?r = (fst ?r, snd ?r)" by simp
  have six: "str_int 6 = ''6''" by code_simp
  have cfg: "ini sample_env \<noteq> None" by (simp add: sample_env_def)
  note g = get_serial_reports_and_exits [OF h r, of 6]
  from g cfg have "fst ?r = Exit 0
      \<and> last (effects (snd ?r)) = Log INFO (''The current serial number is: '' @ str_int 6)
      \<and> serial_pk (snd ?r) = Some 6 \<and> existing (snd ?r) = {''/in/a.JPG''}"
    by simp
  with six h show ?thesis by simp
qed

subsection \<open>A photo whose date cannot be read\<close>

lemma date_failure_cause_irrelevant:
  "read_date_taken e pic = Inl x \<Longrightarrow>
   try_date_taken e pic st =
     (None, log WARNING (''Error raised on import of EXIF tag for '' @ pic
              @ ''date in filename will be set to '' @ [CHR 0x27] @ ''nodate'' @ [CHR 0x27]) st)"
  by (simp add: try_date_taken_def)

lemma make_jpeg_without_date:
  "\<not> dryrun a \<Longrightarrow> \<exists>st'. make_jpeg cfg a None filepath name jname st = Inl (TypeError, st')"
  by (simp add: make_jpeg_def datetime_strftime_def Let_def)

lemma make_jpeg_dry_run:
  "dryrun a \<Longrightarrow> make_jpeg cfg a d filepath name jname st
     = Inr (log INFO ''ACTION: call dark-table and make jpeg'' st)"
  by (simp add: make_jpeg_def)

text \<open>
  A raw photo whose date cannot be read, in a run that is not a dry run: the photo is
  moved, then \<^verbatim>\<open>TypeError\<close> ends the run.
\<close>

lemma raw_photo_without_date_raises:
  assumes "read_date_taken e pic = Inl x" and "\<not> dryrun a"
  shows "\<exists>st'. import_photo cfg a e pic ''.cr2'' st = Inl (TypeError, st')"
proof -
  from assms(1) have "None = fst (try_date_taken e pic st)" by (simp add: try_date_taken_fst)
  from import_photo_steps [OF this, of cfg a "''.cr2''"] make_jpeg_without_date [OF assms(2)]
  show ?thesis by (simp add: Let_def)
qed

text \<open>Any other photo whose date cannot be read, and every photo under dry-run, is a step that ends.\<close>

lemma import_photo_ends:
  assumes "extension \<noteq> ''.cr2'' \<or> dryrun a \<or> (\<exists>t. read_date_taken e pic = Inr t)"
  shows "\<exists>st'. import_photo cfg a e pic extension st = Inr st'"
proof -
  obtain d where d: "d = fst (try_date_taken e pic st)" by simp
  note steps = import_photo_steps [OF d, of cfg a extension]
  show ?thesis
  proof (cases "extension = ''.cr2''")
    case False
    with steps show ?thesis by (simp add: Let_def)
  next
    case True
    show ?thesis
    proof (cases "dryrun a")
      case True
      with steps \<open>extension = ''.cr2''\<close> show ?thesis by (simp add: Let_def make_jpeg_dry_run)
    next
      case False
      with assms \<open>extension = ''.cr2''\<close> obtain t where "read_date_taken e pic = Inr t" by blast
      with d have "d = Some t" by (simp add: try_date_taken_fst)
      with steps False \<open>extension = ''.cr2''\<close> show ?thesis
        by (simp add: Let_def make_jpeg_def datetime_strftime_def)
    qed
  qed
qed

text \<open>
  C2. The claim: for a raw photo without a capture time and serial \<open>s\<close>, the jpeg is
  named \<open>s\<close>\<^verbatim>\<open>.jpg\<close>, its destination is the \<^verbatim>\<open>nodate\<close> folder of the pre-process root, and
  the run goes on. The script computes the name, but line 190 asks the missing date
  for its year: in a run of the inbox \<^verbatim>\<open>/in/e.CR2\<close>, \<^verbatim>\<open>/in/c.txt\<close> that is not a dry run, the
  raw photo is moved to \<^verbatim>\<open>/raw/nodate/9.cr2\<close>, then \<^verbatim>\<open>TypeError\<close> ends the run; no jpeg
  is made, the second file is never looked at, and the serial number is not pickled.
\<close>

theorem raw_photo_without_date_ends_the_run:
  "read_date_taken sample_env ''/in/e.CR2'' = Inl KeyError
   \<and> fst (script no_flags (sample_env\<lparr>walk := [''/in/e.CR2'', ''/in/c.txt'']\<rparr>)
          {''/in/e.CR2'', ''/in/c.txt''} (Some 8)) = Traceback TypeError
   \<and> effects (snd (script no_flags (sample_env\<lparr>walk := [''/in/e.CR2'', ''/in/c.txt'']\<rparr>)
          {''/in/e.CR2'', ''/in/c.txt''} (Some 8)))
       = [Log DEBUG ''pickle file found'',
          Log INFO ''serial number starting at: 8'',
          Log INFO ''Welcome to Meili image_importer'',
          Log WARNING (''Error raised on import of EXIF tag for /in/e.CR2''
             @ ''date in filename will be set to '' @ [CHR 0x27] @ ''nodate'' @ [CHR 0x27]),
          MakeDirs ''/raw/nodate'',
          Move ''/in/e.CR2'' ''/raw/nodate/9.cr2'']
   \<and> serial_pk (snd (script no_flags (sample_env\<lparr>walk := [''/in/e.CR2'', ''/in/c.txt'']\<rparr>)
          {''/in/e.CR2'', ''/in/c.txt''} (Some 8))) = Some 8"
  by code_simp

text \<open>
  C7. The claim: when the capture time cannot be read, for whatever reason, no
  exception ends the run, the file goes to \<^verbatim>\<open>nodate\<close> and the next file is processed.
  The three causes are caught alike (\<open>date_failure_cause_irrelevant\<close>) and the run goes
  on for every photo that is not raw and for every photo under dry-run
  (\<open>import_photo_ends\<close>). For a raw photo in a run that is not a dry run, each of the
  three causes ends the run with \<^verbatim>\<open>TypeError\<close> at line 190, and the file after it is
  not processed.
\<close>

theorem date_failure_of_raw_photo_ends_the_run:
  "fst (script no_flags
          (sample_env\<lparr>walk := [''/in/x.cr2'', ''/in/c.txt''], exif := (\<lambda>p. CannotOpen)\<rparr>)
          {} None) = Traceback TypeError
   \<and> fst (script no_flags
          (sample_env\<lparr>walk := [''/in/x.cr2'', ''/in/c.txt''], exif := (\<lambda>p. NoDateTimeOriginal)\<rparr>)
          {} None) = Traceback TypeError
   \<and> fst (script no_flags
          (sample_env\<lparr>walk := [''/in/x.cr2'', ''/in/c.txt''],
             exif := (\<lambda>p. DateTimeOriginal ''0000:00:00 00:00:00'')\<rparr>)
          {} None) = Traceback TypeError
   \<and> reject_count (snd (script no_flags
          (sample_env\<lparr>walk := [''/in/x.cr2'', ''/in/c.txt''], exif := (\<lambda>p. CannotOpen)\<rparr>)
          {} None)) = 0
   \<and> reject_count (snd (script no_flags
          (sample_env\<lparr>walk := [''/in/x.cr2'', ''/in/c.txt''], exif := (\<lambda>p. NoDateTimeOriginal)\<rparr>)
          {} None)) = 0
   \<and> reject_count (snd (script no_flags
          (sample_env\<lparr>walk := [''/in/x.cr2'', ''/in/c.txt''],
             exif := (\<lambda>p. DateTimeOriginal ''0000:00:00 00:00:00'')\<rparr>)
          {} None)) = 0"
  by code_simp

subsection \<open>Dry run\<close>

lemma dry_run_effect_log [simp]: "dry_run_effect cfg (Log l m)"
  by (simp add: dry_run_effect_def)

lemma log_dry:
  "list_all (dry_run_effect cfg) (effects (log l m st)) = list_all (dry_run_effect cfg) (effects st)"
  by simp

lemma reject_dry:
  "dryrun a \<Longrightarrow> list_all (dry_run_effect cfg) (effects st)
     \<Longrightarrow> list_all (dry_run_effect cfg) (effects (reject cfg a file st))"
  by (simp add: reject_def Let_def dry_run_effect_def)

lemma reject_video_dry:
  "dryrun a \<Longrightarrow> list_all (dry_run_effect cfg) (effects st)
     \<Longrightarrow> list_all (dry_run_effect cfg) (effects (reject_video cfg a video st))"
  by (simp add: reject_video_def Let_def dry_run_effect_def)

lemma move_to_destination_dry:
  "dryrun a \<Longrightarrow> list_all (dry_run_effect cfg) (effects st)
     \<Longrightarrow> list_all (dry_run_effect cfg) (effects (move_to_destination a pic filepath name st))"
  by (simp add: move_to_destination_def Let_def)

lemma try_date_taken_dry:
  "list_all (dry_run_effect cfg) (effects st)
     \<Longrightarrow> list_all (dry_run_effect cfg) (effects (snd (try_date_taken e pic st)))"
  by (simp add: try_date_taken_def split: sum.splits)

lemma import_photo_dry:
  assumes "dryrun a" and "list_all (dry_run_effect cfg) (effects st)"
  shows "\<exists>st'. import_photo cfg a e pic extension st = Inr st'
            \<and> list_all (dry_run_effect cfg) (effects st')"
proof -
  obtain d where d: "d = fst (try_date_taken e pic st)" by simp
  let ?st2 = "move_to_destination a pic (new_filepath cfg extension d)
                (new_name d (serial st) extension) (snd (try_date_taken e pic st))"
  have "list_all (dry_run_effect cfg) (effects ?st2)"
    using assms by (intro move_to_destination_dry try_date_taken_dry)
  with import_photo_steps [OF d, of cfg a extension] assms(1) show ?thesis
    by (cases "extension = ''.cr2''") (simp_all add: Let_def make_jpeg_dry_run)
qed

lemma process_pic_dry:
  assumes "dryrun a" and "list_all (dry_run_effect cfg) (effects st)"
  shows "\<exists>st'. process_pic cfg a e pic st = Inr st'
            \<and> list_all (dry_run_effect cfg) (effects st')"
proof (cases "splitext pic")
  case (Pair original_name ext)
  let ?st = "st\<lparr>serial := serial st + 1\<rparr>"
  from assms(2) have inv: "list_all (dry_run_effect cfg) (effects ?st)" by simp
  show ?thesis
  proof (cases "lower ext \<notin> set valid_extensions")
    case True
    with Pair reject_dry [OF assms(1), of cfg _ pic] reject_video_dry [OF assms(1), of cfg _ pic]
      inv show ?thesis
      by (simp add: process_pic_def Let_def)
  next
    case False
    with Pair import_photo_dry [OF assms(1) inv, of e pic "lower ext"] show ?thesis
      by (simp add: process_pic_def Let_def)
  qed
qed

lemma process_loop_dry:
  "dryrun a \<Longrightarrow> list_all (dry_run_effect cfg) (effects st) \<Longrightarrow>
   \<exists>st'. process_loop cfg a e pics st = Inr st' \<and> list_all (dry_run_effect cfg) (effects st')"
proof (induction pics arbitrary: st)
  case Nil
  then show ?case by simp
next
  case (Cons pic pics)
  from process_pic_dry [OF Cons.prems, of e pic] obtain st1 where
    "process_pic cfg a e pic st = Inr st1" "list_all (dry_run_effect cfg) (effects st1)" by blast
  with Cons.IH [OF Cons.prems(1), of st1] show ?case by simp
qed

lemma log_serial_pk [simp]: "serial_pk (log l m st) = serial_pk st"
  by (simp add: log_def)

lemma os_makedirs_serial_pk [simp]: "serial_pk (os_makedirs p st) = serial_pk st"
  by (simp add: os_makedirs_def)

lemma shutil_move_serial_pk [simp]: "serial_pk (shutil_move src dst st) = serial_pk st"
  by (simp add: shutil_move_def)

lemma subprocess_run_serial_pk [simp]: "serial_pk (subprocess_run argv st) = serial_pk st"
  by (simp add: subprocess_run_def)

lemma reject_serial_pk [simp]: "serial_pk (reject cfg a file st) = serial_pk st"
  by (simp add: reject_def Let_def)

lemma reject_video_serial_pk [simp]: "serial_pk (reject_video cfg a video st) = serial_pk st"
  by (simp add: reject_video_def Let_def)

lemma try_date_taken_serial_pk [simp]:
  "serial_pk (snd (try_date_taken e pic st)) = serial_pk st"
  by (simp add: try_date_taken_def split: sum.splits)

lemma move_to_destination_serial_pk [simp]:
  "serial_pk (move_to_destination a pic filepath name st) = serial_pk st"
  by (simp add: move_to_destination_def Let_def)

lemma make_jpeg_serial_pk [simp]:
  "serial_pk (outcome_state (make_jpeg cfg a date_taken filepath name jname st)) = serial_pk st"
  by (simp add: make_jpeg_def outcome_state_def Let_def split: sum.splits)

lemma import_photo_serial_pk:
  "serial_pk (outcome_state (import_photo cfg a e pic extension st)) = serial_pk st"
proof -
  obtain d where d: "d = fst (try_date_taken e pic st)" by simp
  from import_photo_steps [OF d, of cfg a extension] show ?thesis
    by (cases "extension = ''.cr2''") (simp_all add: Let_def outcome_state_def [of "Inr _"])
qed

text \<open>Only the main block writes the pickle file.\<close>

lemma process_pic_serial_pk:
  "serial_pk (outcome_state (process_pic cfg a e pic st)) = serial_pk st"
  by (cases "splitext pic")
     (simp add: process_pic_def Let_def import_photo_serial_pk outcome_state_def [of "Inr _"])

lemma process_loop_serial_pk:
  "serial_pk (outcome_state (process_loop cfg a e pics st)) = serial_pk st"
proof (induction pics arbitrary: st)
  case Nil
  then show ?case by (simp add: outcome_state_def)
next
  case (Cons pic pics)
  show ?case
  proof (cases "process_pic cfg a e pic st")
    case (Inl failed)
    with process_pic_serial_pk [of cfg a e pic st] show ?thesis by simp
  next
    case (Inr st1)
    with process_pic_serial_pk [of cfg a e pic st] have "serial_pk st1 = serial_pk st"
      by (simp add: outcome_state_def)
    with Inr Cons.IH [of st1] show ?thesis by simp
  qed
qed

text \<open>
  What holds of every dry run: it comes to its end, the pickled number is what it was,
  and beyond the log it has at most made the reject and the video directory.
\<close>

lemma dry_run_frame:
  assumes "dryrun a" and "ini e = Some cfg" and "script a e fs pk = (x, st)"
  shows "x = Exit 0 \<and> serial_pk st = pk \<and> list_all (dry_run_effect cfg) (effects st)"
proof (cases "get_serial a")
  case True
  with assms show ?thesis
    by (cases pk) (auto simp add: script_def main_def load_serial_def Let_def)
next
  case False
  let ?st1 = "(log INFO ''Welcome to Meili image_importer'' (load_serial fs pk))
                \<lparr>allpics := allpics (load_serial fs pk) @ walk e\<rparr>"
  have inv: "list_all (dry_run_effect cfg) (effects ?st1)"
    by (cases pk) (simp_all add: load_serial_def Let_def)
  have pk: "serial_pk ?st1 = pk" by (cases pk) (simp_all add: load_serial_def Let_def)
  from process_loop_dry [OF assms(1) inv, of e "allpics ?st1"] obtain st2 where
    run: "process_loop cfg a e (allpics ?st1) ?st1 = Inr st2"
    and inv2: "list_all (dry_run_effect cfg) (effects st2)" by blast
  from run process_loop_serial_pk [of cfg a e "allpics ?st1" ?st1] pk
  have pk2: "serial_pk st2 = pk" by (simp add: outcome_state_def)
  from run have "process cfg a e (log INFO ''Welcome to Meili image_importer'' (load_serial fs pk))
      = Inr st2"
    by (simp add: process_def Let_def log_def)
  with assms False have "x = Exit 0" "st = log INFO ''ACTION: Dumping pickle'' st2"
    by (simp_all add: script_def main_def Let_def)
  with inv2 pk2 show ?thesis by simp
qed

text \<open>
  C1. The claim: a dry run changes nothing in the file system and starts no process;
  rejecting a file or a video under dry-run does not make the reject or the video
  directory and does not move the file, and the pickled serial number stays. A dry run
  indeed moves no file, starts no process and leaves the pickle file alone
  (\<open>dry_run_frame\<close>). But \<open>reject\<close> and \<open>reject_video\<close> call \<^verbatim>\<open>os.makedirs\<close> before they
  look at the flag: the dry run of an inbox with a text file and a video, when neither
  directory exists, makes \<^verbatim>\<open>/rej\<close> and \<^verbatim>\<open>/vid\<close>.
\<close>

theorem dry_run_creates_reject_directories:
  "fst (script (no_flags\<lparr>dryrun := True\<rparr>)
          (sample_env\<lparr>walk := [''/in/c.txt'', ''/in/d.MKV'']\<rparr>)
          {''/in/c.txt'', ''/in/d.MKV''} (Some 6)) = Exit 0
   \<and> effects (snd (script (no_flags\<lparr>dryrun := True\<rparr>)
          (sample_env\<lparr>walk := [''/in/c.txt'', ''/in/d.MKV'']\<rparr>)
          {''/in/c.txt'', ''/in/d.MKV''} (Some 6)))
       = [Log DEBUG ''pickle file found'',
          Log INFO ''serial number starting at: 6'',
          Log INFO ''Welcome to Meili image_importer'',
          Log INFO ''/in/c.txt does not have a valid photo extension:rejecting'',
          MakeDirs ''/rej'',
          Log INFO ''ACTION: Move file to reject path'',
          Log INFO ''/in/d.MKV appears to be a video: moving to /vid'',
          MakeDirs ''/vid'',
          Log INFO ''ACTION: Move /in/d.MKV to /vid'',
          Log INFO ''ACTION: Dumping pickle'']
   \<and> ''/rej'' \<notin> {''/in/c.txt'', ''/in/d.MKV''}
   \<and> ''/rej'' \<in> existing (snd (script (no_flags\<lparr>dryrun := True\<rparr>)
          (sample_env\<lparr>walk := [''/in/c.txt'', ''/in/d.MKV'']\<rparr>)
          {''/in/c.txt'', ''/in/d.MKV''} (Some 6)))
   \<and> ''/vid'' \<in> existing (snd (script (no_flags\<lparr>dryrun := True\<rparr>)
          (sample_env\<lparr>walk := [''/in/c.txt'', ''/in/d.MKV'']\<rparr>)
          {''/in/c.txt'', ''/in/d.MKV''} (Some 6)))"
  by code_simp

subsection \<open>Where each class of file goes\<close>

lemma os_path_join_under:
  "\<forall>b \<in> set bs. b \<noteq> [] \<and> hd b \<noteq> CHR ''/'' \<Longrightarrow> \<exists>rel. os_path_join path bs = path @ rel"
proof (induction bs arbitrary: path)
  case Nil
  then show ?case by (simp add: os_path_join.simps)
next
  case (Cons b bs)
  let ?path = "if path = [] \<or> last path = CHR ''/'' then path @ b else path @ ''/'' @ b"
  from Cons.prems have "os_path_join path (b # bs) = os_path_join ?path bs"
    by (simp add: os_path_join.simps)
  moreover from Cons.prems Cons.IH [of ?path] obtain rel where
    "os_path_join ?path bs = ?path @ rel" by auto
  ultimately have "os_path_join path (b # bs)
      = path @ (if path = [] \<or> last path = CHR ''/'' then b else ''/'' @ b) @ rel"
    by simp
  then show ?case by blast
qed

lemma os_path_join_join:
  "os_path_join (os_path_join path bs) cs = os_path_join path (bs @ cs)"
  by (induction bs arbitrary: path) (simp_all add: os_path_join.simps)

lemma new_name_no_root: "new_name d s extension \<noteq> [] \<and> hd (new_name d s extension) \<noteq> CHR ''/''"
proof -
  from new_name_shape [of d s extension] obtain stem where
    n: "new_name d s extension = stem @ extension" and ne: "stem \<noteq> []"
    and sl: "CHR ''/'' \<notin> set stem" by blast
  from ne have "hd stem \<in> set stem" by simp
  with sl have "hd stem \<noteq> CHR ''/''" by metis
  with n ne show ?thesis by simp
qed

lemma str_nat_no_root: "str_nat n \<noteq> [] \<and> hd (str_nat n) \<noteq> CHR ''/''"
proof -
  have "hd (str_nat n) \<in> set (str_nat n)" using str_nat_nonempty [of n] by simp
  with str_nat_plain [of "hd (str_nat n)" n] str_nat_nonempty [of n] show ?thesis by simp
qed

lemma zfill_no_root: "zfill w (str_nat n) \<noteq> [] \<and> hd (zfill w (str_nat n)) \<noteq> CHR ''/''"
proof -
  have ne: "zfill w (str_nat n) \<noteq> []" by (simp add: zfill_def str_nat_nonempty)
  then have "hd (zfill w (str_nat n)) \<in> set (zfill w (str_nat n))" by simp
  with zfill_plain [of "hd (zfill w (str_nat n))" w n] ne show ?thesis by simp
qed

text \<open>The folders below the storage root, as lines 150 to 157 join them.\<close>

lemma new_filepath_folders:
  "new_filepath cfg extension d =
     os_path_join (storage_path cfg extension)
       (case d of Some t \<Rightarrow> [strftime t ''%Y'', strftime t ''%m''] | None \<Rightarrow> [''nodate''])"
  by (cases d) (simp_all add: new_filepath_def)

text \<open>The destination of a photo lies under the storage root of its class.\<close>

lemma destination_under_root:
  "\<exists>rel. os_path_join (new_filepath cfg extension d) [new_name d s extension]
           = storage_path cfg extension @ rel"
proof -
  let ?folders = "case d of Some t \<Rightarrow> [strftime t ''%Y'', strftime t ''%m''] | None \<Rightarrow> [''nodate'']"
  have "\<forall>b \<in> set (?folders @ [new_name d s extension]). b \<noteq> [] \<and> hd b \<noteq> CHR ''/''"
    using new_name_no_root [of d s extension]
    by (cases d) (simp_all add: directive_def str_nat_no_root zfill_no_root)
  from os_path_join_under [OF this, of "storage_path cfg extension"]
  show ?thesis by (simp add: new_filepath_folders os_path_join_join)
qed

lemma reject_video_reject_count:
  "reject_count (reject_video cfg a video st) = reject_count st + 1"
  by (simp add: reject_video_def Let_def os_makedirs_def shutil_move_def)

lemma reject_video_last_effect:
  "last (effects (reject_video cfg a video st)) =
     (if dryrun a then Log INFO (''ACTION: Move '' @ video @ '' to '' @ video_path cfg)
      else Move video (video_path cfg @ ''/'' @ basename video))"
  by (simp add: reject_video_def Let_def)

text \<open>What \<open>process_pic\<close> does with a photo: where it goes.\<close>

lemma photo_routed:
  assumes "extension = lower (snd (splitext pic))" and "extension \<in> set valid_extensions"
    and "d = (case read_date_taken e pic of Inr t \<Rightarrow> Some t | Inl x \<Rightarrow> None)"
    and "name = new_name d (serial st + 1) extension"
    and "st' = outcome_state (process_pic cfg a e pic st)"
  shows "process_pic cfg a e pic st
           = import_photo cfg a e pic extension (st\<lparr>serial := serial st + 1\<rparr>)
       \<and> (\<not> dryrun a \<longrightarrow>
            Move pic (os_path_join (new_filepath cfg extension d) [name]) \<in> set (effects st'))
       \<and> (dryrun a \<longrightarrow>
            Log INFO (''ACTION: move '' @ pic @ '' to ''
                        @ os_path_join (new_filepath cfg extension d) [name])
              \<in> set (effects st'))"
proof -
  let ?st = "st\<lparr>serial := serial st + 1\<rparr>"
  have step: "process_pic cfg a e pic st = import_photo cfg a e pic extension ?st"
    using assms(1,2) by (cases "splitext pic") (simp add: process_pic_def Let_def)
  from assms(3) have date: "d = fst (try_date_taken e pic ?st)"
    by (simp add: try_date_taken_fst)
  have s: "serial ?st = serial st + 1" by simp
  have mv: "\<not> dryrun a \<longrightarrow>
            Move pic (os_path_join (new_filepath cfg extension d) [name]) \<in> set (effects st')"
    using import_photo_moves [OF _ date, of a cfg extension]
    unfolding assms(4,5) step s by blast
  have lg: "dryrun a \<longrightarrow>
            Log INFO (''ACTION: move '' @ pic @ '' to ''
                        @ os_path_join (new_filepath cfg extension d) [name])
              \<in> set (effects st')"
    using import_photo_logs [OF _ date, of a cfg extension]
    unfolding assms(4,5) step s by blast
  from step mv lg show ?thesis by blast
qed

text \<open>
  C4. What \<open>process_pic\<close> does with a file agrees with the classification of the
  specification, the extension being compared in lower case. A \<^verbatim>\<open>.cr2\<close> file is a raw
  photo: it is moved (under dry-run, logged to be moved) to its folder and new name
  under the raw root. A file with another photo extension (\<^verbatim>\<open>.tif\<close>, \<^verbatim>\<open>.jpg\<close>, \<^verbatim>\<open>.jpeg\<close>,
  \<^verbatim>\<open>.png\<close>) is a processed photo: it is moved to its folder and new name under the
  pre-process root. A file with a video extension (\<^verbatim>\<open>.mp4\<close>, \<^verbatim>\<open>.mkv\<close>) is counted as
  rejected and moved under its base name to the video directory. Every other file is
  counted as rejected and moved under its base name to the reject directory.
\<close>

theorem classification_routes:
  assumes "extension = lower (snd (splitext pic))"
    and "d = (case read_date_taken e pic of Inr t \<Rightarrow> Some t | Inl x \<Rightarrow> None)"
    and "folders = (case d of Some t \<Rightarrow> [strftime t ''%Y'', strftime t ''%m'']
                    | None \<Rightarrow> [''nodate''])"
    and "name = new_name d (serial st + 1) extension"
    and "st' = outcome_state (process_pic cfg a e pic st)"
  shows "case classify_spec (snd (splitext pic)) of
           RawPhoto \<Rightarrow>
             (\<not> dryrun a \<longrightarrow>
                Move pic (os_path_join (os_path_join (raw_path cfg) folders) [name])
                  \<in> set (effects st'))
             \<and> (dryrun a \<longrightarrow>
                Log INFO (''ACTION: move '' @ pic @ '' to ''
                            @ os_path_join (os_path_join (raw_path cfg) folders) [name])
                  \<in> set (effects st'))
             \<and> (\<exists>rel. os_path_join (os_path_join (raw_path cfg) folders) [name]
                         = raw_path cfg @ rel)
         | ProcessedPhoto \<Rightarrow>
             (\<not> dryrun a \<longrightarrow>
                Move pic (os_path_join (os_path_join (pre_process cfg) folders) [name])
                  \<in> set (effects st'))
             \<and> (dryrun a \<longrightarrow>
                Log INFO (''ACTION: move '' @ pic @ '' to ''
                            @ os_path_join (os_path_join (pre_process cfg) folders) [name])
                  \<in> set (effects st'))
             \<and> (\<exists>rel. os_path_join (os_path_join (pre_process cfg) folders) [name]
                         = pre_process cfg @ rel)
         | Video \<Rightarrow>
             reject_count st' = reject_count st + 1
             \<and> (\<not> dryrun a \<longrightarrow>
                last (effects st') = Move pic (video_path cfg @ ''/'' @ basename pic))
             \<and> (dryrun a \<longrightarrow>
                last (effects st')
                  = Log INFO (''ACTION: Move '' @ pic @ '' to '' @ video_path cfg))
         | Unsupported \<Rightarrow>
             reject_count st' = reject_count st + 1
             \<and> (\<not> dryrun a \<longrightarrow>
                last (effects st') = Move pic (reject_path cfg @ ''/'' @ basename pic))
             \<and> (dryrun a \<longrightarrow>
                last (effects st') = Log INFO ''ACTION: Move file to reject path'')"
proof -
  let ?st1 = "st\<lparr>serial := serial st + 1\<rparr>"
  obtain original_name ext where sp: "splitext pic = (original_name, ext)"
    by (cases "splitext pic")
  with assms(1) have x: "extension = lower ext" by simp
  have fp: "new_filepath cfg extension d = os_path_join (storage_path cfg extension) folders"
    unfolding assms(3) by (rule new_filepath_folders)
  from destination_under_root [of cfg extension d "serial st + 1"] fp assms(4)
  have under: "\<exists>rel. os_path_join (os_path_join (storage_path cfg extension) folders) [name]
                 = storage_path cfg extension @ rel"
    by simp
  consider (raw) "extension = ''.cr2''"
    | (photo) "extension \<noteq> ''.cr2''" "extension \<in> set [''.tif'', ''.jpg'', ''.jpeg'', ''.png'']"
    | (video) "extension \<in> set [''.mp4'', ''.mkv'']"
    | (other) "extension \<notin> set valid_extensions" "extension \<notin> set video_extensions"
    by (auto simp add: valid_extensions_def video_extensions_def)
  then show ?thesis
  proof cases
    case raw
    then have cl: "classify_spec (snd (splitext pic)) = RawPhoto"
      using sp x by (simp add: classify_spec_def)
    from raw have v: "extension \<in> set valid_extensions" by (simp add: valid_extensions_def)
    from raw have root: "storage_path cfg extension = raw_path cfg"
      by (simp add: storage_path_def)
    from photo_routed [OF assms(1) v assms(2,4,5)] fp under root cl show ?thesis by simp
  next
    case photo
    then have cl: "classify_spec (snd (splitext pic)) = ProcessedPhoto"
      using sp x by (simp add: classify_spec_def)
    from photo have v: "extension \<in> set valid_extensions" by (auto simp add: valid_extensions_def)
    from photo have root: "storage_path cfg extension = pre_process cfg"
      by (simp add: storage_path_def)
    from photo_routed [OF assms(1) v assms(2,4,5)] fp under root cl show ?thesis by simp
  next
    case video
    then have cl: "classify_spec (snd (splitext pic)) = Video"
      using sp x by (auto simp add: classify_spec_def)
    from video have "extension \<notin> set valid_extensions" "extension \<in> set video_extensions"
      by (auto simp add: valid_extensions_def video_extensions_def)
    with sp x have "process_pic cfg a e pic st =
        Inr (reject_video cfg a pic
               (log INFO (pic @ '' appears to be a video: moving to '' @ video_path cfg) ?st1))"
      by (simp add: process_pic_def Let_def)
    with assms(5) have "st' = reject_video cfg a pic
               (log INFO (pic @ '' appears to be a video: moving to '' @ video_path cfg) ?st1)"
      by (simp add: outcome_state_def)
    with cl show ?thesis by (simp add: reject_video_reject_count reject_video_last_effect)
  next
    case other
    then have cl: "classify_spec (snd (splitext pic)) = Unsupported"
      using sp x by (auto simp add: classify_spec_def valid_extensions_def video_extensions_def)
    from other sp x have "process_pic cfg a e pic st =
        Inr (reject cfg a pic
               (log INFO (pic @ '' does not have a valid photo extension:rejecting'') ?st1))"
      by (simp add: process_pic_def Let_def)
    with assms(5) have "st' = reject cfg a pic
               (log INFO (pic @ '' does not have a valid photo extension:rejecting'') ?st1)"
      by (simp add: outcome_state_def)
    with cl show ?thesis by (simp add: reject_reject_count reject_last_effect)
  qed
qed

theorem classification_routes_witness:
  "''.cr2'' = lower (snd (splitext ''/in/e.CR2''))
   \<and> classify_spec (snd (splitext ''/in/e.CR2'')) = RawPhoto
   \<and> Move ''/in/e.CR2'' ''/raw/nodate/7.cr2''
       \<in> set (effects (outcome_state
                (process_pic sample_config no_flags sample_env ''/in/e.CR2'' sample_state)))
   \<and> ''.mkv'' = lower (snd (splitext ''/in/d.MKV''))
   \<and> classify_spec (snd (splitext ''/in/d.MKV'')) = Video
   \<and> last (effects (outcome_state
                (process_pic sample_config no_flags sample_env ''/in/d.MKV'' sample_state)))
       = Move ''/in/d.MKV'' ''/vid/d.MKV''"
proof -
  let ?raw = "outcome_state
                (process_pic sample_config no_flags sample_env ''/in/e.CR2'' sample_state)"
  let ?video = "outcome_state
                (process_pic sample_config no_flags sample_env ''/in/d.MKV'' sample_state)"
  have raw: "''.cr2'' = lower (snd (splitext ''/in/e.CR2''))" by code_simp
  have raw_class: "classify_spec (snd (splitext ''/in/e.CR2'')) = RawPhoto" by code_simp
  have raw_date: "None = (case read_date_taken sample_env ''/in/e.CR2'' of
                            Inr t \<Rightarrow> Some t | Inl x \<Rightarrow> None)"
    by code_simp
  have folders: "[''nodate''] = (case (None :: datetime option) of
                    Some t \<Rightarrow> [strftime t ''%Y'', strftime t ''%m''] | None \<Rightarrow> [''nodate''])"
    by simp
  have raw_dest: "os_path_join (os_path_join (raw_path sample_config) [''nodate''])
                    [new_name None (serial sample_state + 1) ''.cr2''] = ''/raw/nodate/7.cr2''"
    by code_simp
  have video: "''.mkv'' = lower (snd (splitext ''/in/d.MKV''))" by code_simp
  have video_class: "classify_spec (snd (splitext ''/in/d.MKV'')) = Video" by code_simp
  have video_date: "None = (case read_date_taken sample_env ''/in/d.MKV'' of
                            Inr t \<Rightarrow> Some t | Inl x \<Rightarrow> None)"
    by code_simp
  have video_dest: "video_path sample_config @ ''/'' @ basename ''/in/d.MKV'' = ''/vid/d.MKV''"
    by code_simp
  have flags: "\<not> dryrun no_flags" by (simp add: no_flags_def)
  from classification_routes [where cfg = sample_config and a = no_flags and st = sample_state,
      OF raw raw_date folders refl refl] raw_class
  have "\<not> dryrun no_flags \<longrightarrow>
      Move ''/in/e.CR2'' (os_path_join (os_path_join (raw_path sample_config) [''nodate''])
                    [new_name None (serial sample_state + 1) ''.cr2''])
        \<in> set (effects ?raw)"
    by simp
  with flags raw_dest have r: "Move ''/in/e.CR2'' ''/raw/nodate/7.cr2'' \<in> set (effects ?raw)"
    by simp
  from classification_routes [where cfg = sample_config and a = no_flags and st = sample_state,
      OF video video_date folders refl refl] video_class
  have "\<not> dryrun no_flags \<longrightarrow>
      last (effects ?video)
        = Move ''/in/d.MKV'' (video_path sample_config @ ''/'' @ basename ''/in/d.MKV'')"
    by simp
  with flags video_dest have v: "last (effects ?video) = Move ''/in/d.MKV'' ''/vid/d.MKV''"
    by simp
  from raw raw_class r video video_class v show ?thesis by blast
qed

end
